theory Spec2Isabelle
  imports Main "HOL-Library.Word" "HOL-Library.AList"
begin

unbundle bit_operations_syntax

section \<open>Basic types\<close>

text \<open>
  Byte strings are lists of 8-bit words. A \<^verbatim>\<open>common.Hash\<close> is a \<^verbatim>\<open>[32]byte\<close>, that is a
  256-bit value, read big-endian; the zero value \<^verbatim>\<open>common.Hash{}\<close> is \<open>0\<close>. The keys of the
  dirty map are Go strings, that is byte strings again.
\<close>

type_synonym byte = "8 word"
type_synonym bytes = "byte list"
type_synonym hash = "256 word"
type_synonym key = bytes

text \<open>\<^verbatim>\<open>common.StorageSize\<close> is a float64 that only ever holds sums and differences of
  integers here; it is modelled by the integers.\<close>

type_synonym StorageSize = int

definition HashLength :: nat where
  "HashLength = 32"

text \<open>\<^verbatim>\<open>Hash.Bytes\<close>: the 32 bytes of a hash, most significant first.\<close>

fun hashBytesN :: "nat \<Rightarrow> hash \<Rightarrow> bytes" where
  "hashBytesN 0 h = []"
| "hashBytesN (Suc n) h = hashBytesN n (drop_bit 8 h) @ [ucast h]"

definition Bytes :: "hash \<Rightarrow> bytes" where
  "Bytes h = hashBytesN HashLength h"

text \<open>\<^verbatim>\<open>common.BytesToHash\<close>: the bytes are right-aligned in the hash; an input longer than
  32 bytes is cropped from the left, which the 256-bit accumulator does by itself.\<close>

definition BytesToHash :: "bytes \<Rightarrow> hash" where
  "BytesToHash bs = foldl (\<lambda>acc b. push_bit 8 acc OR ucast b) 0 bs"

section \<open>The node key codec\<close>

text \<open>
  Modelled from the spec: \<^verbatim>\<open>EncodeNodeKey\<close> and \<^verbatim>\<open>DecodeNodeKey\<close> are called by
  \<^verbatim>\<open>trie/database.go\<close> but their source is not part of the tree. The specification gives
  the on-disk key format as \<^verbatim>\<open>ownerHash(32B) ++ nibblePath(variable) ++ nodeHash(32B)\<close>;
  the decoder takes the first 32 bytes, the last 32 bytes and what lies between.
\<close>

definition EncodeNodeKey :: "hash \<Rightarrow> bytes \<Rightarrow> hash \<Rightarrow> bytes" where
  "EncodeNodeKey owner path h = Bytes owner @ path @ Bytes h"

definition DecodeNodeKey :: "bytes \<Rightarrow> hash \<times> bytes \<times> hash" where
  "DecodeNodeKey k =
     (BytesToHash (take HashLength k),
      take (length k - 2 * HashLength) (drop HashLength k),
      BytesToHash (drop (length k - HashLength) k))"

section \<open>Trie nodes\<close>

text \<open>
  The \<^verbatim>\<open>node\<close> interface with the implementations that \<^verbatim>\<open>trie/database.go\<close>
  switches on: expanded short and full nodes (their flags are dropped by
  \<^verbatim>\<open>simplifyNode\<close> and are not modelled), their raw forms, hash nodes, value nodes and
  the nil interface value. A full node has 17 children.
\<close>

datatype node =
    ShortNode bytes node
  | FullNode "node list"
  | RawShortNode bytes node
  | RawFullNode "node list"
  | HashNode bytes
  | ValueNode bytes
  | NilNode

text \<open>
  A Go panic, a \<^verbatim>\<open>log.Crit\<close> (which ends the process) and a recursion that does not
  come back within the fuel it was given are faults: the call does not return.
\<close>

datatype fault =
    NilPointerDereference
  | SliceOutOfRange
  | UnknownNodeType
  | NotImplemented
  | EncodingFailed
  | LogCrit
  | OutOfFuel

text \<open>Go \<^verbatim>\<open>error\<close> values that a call returns to its caller.\<close>

datatype error = IOError | UnexpectedData | OtherError

section \<open>The disk store\<close>

text \<open>
  Modelled from the spec: the disk store (\<^verbatim>\<open>ethdb.KeyValueStore\<close>, \<^verbatim>\<open>ethdb.Batch\<close>) and
  the \<^verbatim>\<open>rawdb\<close> accessors are outside the tree. The specification lists the contract
  that is consumed: \<^verbatim>\<open>NewBatch\<close>, batched \<^verbatim>\<open>Put\<close>/\<^verbatim>\<open>Delete\<close>, \<^verbatim>\<open>Write\<close> (durable flush),
  \<^verbatim>\<open>Reset\<close>, \<^verbatim>\<open>ValueSize\<close>, point \<^verbatim>\<open>Get\<close> and a replay of the operations of a
  batch. The key spaces of \<^verbatim>\<open>rawdb\<close> are told apart by a constructor instead of a
  byte prefix. Whether a \<^verbatim>\<open>Write\<close> fails is not decided by the program: the store carries
  the outcomes of its coming writes, \<open>True\<close> for a failure, and a write with no outcome
  left succeeds.
\<close>

datatype dbkey =
    TrieNodeKey key
  | PreimageKey hash
  | CommitRecordKey "64 word" hash
  | OtherKey bytes

datatype batchop = Put dbkey bytes | Delete dbkey

record diskdb =
  store :: "dbkey \<rightharpoonup> bytes"
  failures :: "bool list"

record batch =
  ops :: "batchop list"
  vsize :: nat

definition NewBatch :: batch where
  "NewBatch = \<lparr>ops = [], vsize = 0\<rparr>"

definition batchPut :: "dbkey \<Rightarrow> bytes \<Rightarrow> batch \<Rightarrow> batch" where
  "batchPut k v b = b\<lparr>ops := ops b @ [Put k v], vsize := vsize b + length v\<rparr>"

definition batchDelete :: "dbkey \<Rightarrow> batch \<Rightarrow> batch" where
  "batchDelete k b = b\<lparr>ops := ops b @ [Delete k], vsize := vsize b + 1\<rparr>"

definition ValueSize :: "batch \<Rightarrow> nat" where
  "ValueSize b = vsize b"

definition Reset :: "batch \<Rightarrow> batch" where
  "Reset b = NewBatch"

fun applyOp :: "batchop \<Rightarrow> (dbkey \<rightharpoonup> bytes) \<Rightarrow> (dbkey \<rightharpoonup> bytes)" where
  "applyOp (Put k v) m = m(k \<mapsto> v)"
| "applyOp (Delete k) m = m(k := None)"

text \<open>\<^verbatim>\<open>batch.Write\<close>: all operations reach the store, or the write fails and none does.\<close>

definition Write :: "batch \<Rightarrow> diskdb \<Rightarrow> error option \<times> diskdb" where
  "Write b d =
     (case failures d of
        [] \<Rightarrow> (None, d\<lparr>store := fold applyOp (ops b) (store d)\<rparr>)
      | failed # rest \<Rightarrow>
          if failed then (Some IOError, d\<lparr>failures := rest\<rparr>)
          else (None, d\<lparr>store := fold applyOp (ops b) (store d), failures := rest\<rparr>))"


definition WriteTrieNode :: "key \<Rightarrow> bytes \<Rightarrow> batch \<Rightarrow> batch" where
  "WriteTrieNode k v b = batchPut (TrieNodeKey k) v b"

definition WritePreimages :: "(hash \<times> bytes) list \<Rightarrow> batch \<Rightarrow> batch" where
  "WritePreimages ps b = fold (\<lambda>(h, v). batchPut (PreimageKey h) v) ps b"

definition ReadTrieNode :: "diskdb \<Rightarrow> key \<Rightarrow> bytes option" where
  "ReadTrieNode d k = store d (TrieNodeKey k)"

section \<open>The pruner's data\<close>

text \<open>
  A commit record as far as \<^verbatim>\<open>pruner.go\<close> reads it: its block number, its block hash and
  the keys added to it. The configuration holds the cap on tracked records and the
  canonicality oracle.
\<close>

record CommitRecord =
  number :: "64 word"
  hash :: hash
  Keys :: "key list"

record PrunerConfig =
  MaximumRecords :: int
  IsCanonical :: "64 word \<Rightarrow> hash \<Rightarrow> bool"

record pruner =
  config :: PrunerConfig
  partialKeys :: "key list"
  cleanKeys :: "key list"
  current :: "CommitRecord option"
  records :: "CommitRecord list"
  minRecord :: "64 word"
  written :: "64 word"
  iterated :: "64 word"
  filtered :: "64 word"
  resurrected :: "64 word"

section \<open>The write-back node cache\<close>

text \<open>
  A cached node. \<^verbatim>\<open>children\<close> is a Go map that may be nil; Go maps know their length, so
  the maps of the model are association lists with distinct keys, read with \<open>map_of\<close>
  and written with \<open>AList.update\<close> and \<open>AList.delete\<close>. The field \<^verbatim>\<open>size\<close> is named
  \<open>size_n\<close>.
\<close>

record cachedNode =
  node :: node
  size_n :: "16 word"
  parents :: "32 word"
  children :: "(key \<times> 16 word) list option"
  flushPrev :: key
  flushNext :: key

text \<open>
  The database. The dirty map holds pointers to cached nodes, each owned by its map slot;
  the model stores the nodes themselves and reads a node again from the map wherever the
  program reads through a pointer. The statistics (\<^verbatim>\<open>gctime\<close>, \<^verbatim>\<open>gcnodes\<close>, \<^verbatim>\<open>gcsize\<close>,
  \<^verbatim>\<open>flushtime\<close>, \<^verbatim>\<open>flushnodes\<close>, \<^verbatim>\<open>flushsize\<close>), the meters, the log and the lock are left
  out. The clean cache is a map without eviction.
\<close>

record Database =
  diskdb :: diskdb
  cleans :: "(key \<rightharpoonup> bytes) option"
  dirties :: "(key \<times> cachedNode) list"
  oldest :: key
  newest :: key
  preimages :: "(hash \<times> bytes) list option"
  dirtiesSize :: StorageSize
  childrenSize :: StorageSize
  preimagesSize :: StorageSize
  pruner :: pruner

definition metaRoot :: key where
  "metaRoot = []"

definition cachedNodeChildrenSize :: nat where
  "cachedNodeChildrenSize = 48"

definition minBlockConfirms :: nat where
  "minBlockConfirms = 3600"

text \<open>
  What the code calls and the tree does not hold is a parameter of the model:
  \<^item> \<open>encodeKey\<close> and \<open>decodeKey\<close> stand for \<^verbatim>\<open>EncodeNodeKey\<close> and \<^verbatim>\<open>DecodeNodeKey\<close>
    (the operations of the cache are modelled for any codec; the codec of the
    specification is \<open>EncodeNodeKey\<close> above);
  \<^item> \<open>compactToHex\<close> (the key encoding of short nodes);
  \<^item> \<open>rlpEncode\<close> (\<^verbatim>\<open>rlp.EncodeToBytes\<close> on the node of a cached node, \<open>None\<close> where it
    gives no encoding);
  \<^item> \<open>cachedNodeSize\<close> (\<^verbatim>\<open>reflect.TypeOf(cachedNode{}).Size()\<close>, which depends on the
    platform);
  \<^item> \<open>IdealBatchSize\<close> (a constant of \<^verbatim>\<open>ethdb\<close>);
  \<^item> \<open>flushMarker\<close> (a method of the pruner that receives the batch);
  \<^item> \<open>finalize\<close> (\<^verbatim>\<open>CommitRecord.finalize\<close>, which reads the disk store and returns the
    numbers of iterated and filtered keys, whether the record resolves to content, an
    error, and the store);
  \<^item> \<open>readCommitRecord\<close> and \<open>deleteStale\<close> of the pruning run.
\<close>

record env =
  encodeKey :: "hash \<Rightarrow> bytes \<Rightarrow> hash \<Rightarrow> key"
  decodeKey :: "key \<Rightarrow> hash \<times> bytes \<times> hash"
  compactToHex :: "bytes \<Rightarrow> bytes"
  rlpEncode :: "node \<Rightarrow> bytes option"
  cachedNodeSize :: nat
  IdealBatchSize :: nat
  flushMarker :: "pruner \<Rightarrow> batch \<Rightarrow> error option \<times> pruner \<times> batch"
  finalize :: "CommitRecord \<Rightarrow> key list \<Rightarrow> key list \<Rightarrow> diskdb \<Rightarrow>
                 (nat \<times> nat \<times> bool \<times> error option) \<times> diskdb"
  readCommitRecord :: "diskdb \<Rightarrow> 64 word \<Rightarrow> hash \<Rightarrow> error + CommitRecord"
  deleteStale :: "CommitRecord \<Rightarrow> pruner \<times> diskdb \<Rightarrow> fault + pruner \<times> diskdb"

subsection \<open>Reading and writing the dirty map\<close>

definition getNode :: "Database \<Rightarrow> key \<Rightarrow> cachedNode option" where
  "getNode db k = map_of (dirties db) k"

definition setNode :: "key \<Rightarrow> cachedNode \<Rightarrow> Database \<Rightarrow> Database" where
  "setNode k n db = db\<lparr>dirties := AList.update k n (dirties db)\<rparr>"

definition deleteNode :: "key \<Rightarrow> Database \<Rightarrow> Database" where
  "deleteNode k db = db\<lparr>dirties := AList.delete k (dirties db)\<rparr>"

text \<open>\<^verbatim>\<open>len(n.children)\<close>, which is 0 for a nil map.\<close>

definition lenChildren :: "cachedNode \<Rightarrow> nat" where
  "lenChildren n = (case children n of None \<Rightarrow> 0 | Some m \<Rightarrow> length m)"

text \<open>\<^verbatim>\<open>cachedNode.rlp\<close> panics where the encoder fails.\<close>

definition rlp :: "env \<Rightarrow> cachedNode \<Rightarrow> fault + bytes" where
  "rlp E n = (case rlpEncode E (node n) of None \<Rightarrow> Inl EncodingFailed | Some blob \<Rightarrow> Inr blob)"

subsection \<open>simplifyNode and iterateRefs\<close>

fun simplifyNode :: "env \<Rightarrow> node \<Rightarrow> fault + node"
  and simplifyChildren :: "env \<Rightarrow> node list \<Rightarrow> fault + node list" where
  "simplifyNode E (ShortNode k v) =
     (case simplifyNode E v of
        Inl f \<Rightarrow> Inl f
      | Inr v' \<Rightarrow> Inr (RawShortNode (compactToHex E k) v'))"
| "simplifyNode E (FullNode cs) =
     (case simplifyChildren E cs of
        Inl f \<Rightarrow> Inl f
      | Inr cs' \<Rightarrow> Inr (RawFullNode cs'))"
| "simplifyNode E (ValueNode v) = Inr (ValueNode v)"
| "simplifyNode E (HashNode h) = Inr (HashNode h)"
| "simplifyNode E (RawShortNode k v) = Inl UnknownNodeType"
| "simplifyNode E (RawFullNode cs) = Inl UnknownNodeType"
| "simplifyNode E NilNode = Inl UnknownNodeType"
| "simplifyChildren E [] = Inr []"
| "simplifyChildren E (c # cs) =
     (case (if c \<noteq> NilNode then simplifyNode E c else Inr c) of
        Inl f \<Rightarrow> Inl f
      | Inr c' \<Rightarrow>
          (case simplifyChildren E cs of
             Inl f \<Rightarrow> Inl f
           | Inr cs' \<Rightarrow> Inr (c' # cs')))"

text \<open>
  \<^verbatim>\<open>iterateRefs\<close> calls \<^verbatim>\<open>onHashNode\<close> on the hash nodes below a node, in order, and stops
  at the first error. The callback changes the state it closes over, so the state is
  passed through it. Of a full node the children 0 to 15 are visited.
\<close>

fun iterateRefs :: "node \<Rightarrow> bytes \<Rightarrow> (bytes \<Rightarrow> hash \<Rightarrow> 's \<Rightarrow> fault + error option \<times> 's) \<Rightarrow> 's
                      \<Rightarrow> fault + error option \<times> 's"
  and iterateRefsFull :: "node list \<Rightarrow> nat \<Rightarrow> bytes \<Rightarrow> (bytes \<Rightarrow> hash \<Rightarrow> 's \<Rightarrow> fault + error option \<times> 's)
                      \<Rightarrow> 's \<Rightarrow> fault + error option \<times> 's" where
  "iterateRefs (RawShortNode k v) path onHashNode s = iterateRefs v (path @ k) onHashNode s"
| "iterateRefs (RawFullNode cs) path onHashNode s = iterateRefsFull cs 0 path onHashNode s"
| "iterateRefs (HashNode h) path onHashNode s = onHashNode path (BytesToHash h) s"
| "iterateRefs (ValueNode v) path onHashNode s = Inr (None, s)"
| "iterateRefs NilNode path onHashNode s = Inr (None, s)"
| "iterateRefs (ShortNode k v) path onHashNode s = Inl UnknownNodeType"
| "iterateRefs (FullNode cs) path onHashNode s = Inl UnknownNodeType"
| "iterateRefsFull [] i path onHashNode s = Inr (None, s)"
| "iterateRefsFull (c # cs) i path onHashNode s =
     (if i < 16 then
        (case iterateRefs c (path @ [of_nat i]) onHashNode s of
           Inl f \<Rightarrow> Inl f
         | Inr (Some err, s') \<Rightarrow> Inr (Some err, s')
         | Inr (None, s') \<Rightarrow> iterateRefsFull cs (Suc i) path onHashNode s')
      else Inr (None, s))"

subsection \<open>insert\<close>

text \<open>The callback of \<^verbatim>\<open>insert\<close>: a child that is resident gets one more parent.\<close>

definition insertRef :: "env \<Rightarrow> hash \<Rightarrow> bytes \<Rightarrow> hash \<Rightarrow> Database \<Rightarrow> fault + error option \<times> Database" where
  "insertRef E owner childPath child db =
     (let key = encodeKey E owner childPath child in
      case getNode db key of
        None \<Rightarrow> Inr (None, db)
      | Some c \<Rightarrow> Inr (None, setNode key (c\<lparr>parents := parents c + 1\<rparr>) db))"

text \<open>
  \<^verbatim>\<open>insert\<close>. The size is cut to a \<^verbatim>\<open>uint16\<close>, and \<^verbatim>\<open>common.HashLength + entry.size\<close> is a
  \<^verbatim>\<open>uint16\<close> sum. Writing the old tail's \<^verbatim>\<open>flushNext\<close> goes through the pointer
  \<^verbatim>\<open>db.dirties[db.newest]\<close>.
\<close>

definition insert_node :: "env \<Rightarrow> hash \<Rightarrow> bytes \<Rightarrow> hash \<Rightarrow> int \<Rightarrow> node \<Rightarrow> Database \<Rightarrow> fault + Database" where
  "insert_node E owner path h sz n db =
     (let key = encodeKey E owner path h in
      case getNode db key of
        Some _ \<Rightarrow> Inr db
      | None \<Rightarrow>
          (case simplifyNode E n of
             Inl f \<Rightarrow> Inl f
           | Inr sn \<Rightarrow>
               let entry = \<lparr>node = sn, size_n = word_of_int sz, parents = 0, children = None,
                            flushPrev = newest db, flushNext = []\<rparr>
               in (case iterateRefs sn path (insertRef E owner) db of
                     Inl f \<Rightarrow> Inl f
                   | Inr (_, db1) \<Rightarrow>
                       let db2 = setNode key entry db1 in
                       (case (if oldest db2 = metaRoot then Inr (db2\<lparr>oldest := key, newest := key\<rparr>)
                              else (case getNode db2 (newest db2) of
                                      None \<Rightarrow> Inl NilPointerDereference
                                    | Some t \<Rightarrow>
                                        Inr ((setNode (newest db2) (t\<lparr>flushNext := key\<rparr>) db2)
                                               \<lparr>newest := key\<rparr>))) of
                          Inl f \<Rightarrow> Inl f
                        | Inr db3 \<Rightarrow>
                            Inr (db3\<lparr>dirtiesSize := dirtiesSize db3
                                       + int (unat (of_nat HashLength + size_n entry))\<rparr>)))))"

subsection \<open>The hash children of a node\<close>

text \<open>
  For the statements about \<^verbatim>\<open>insert\<close>: the embedded hash children of a cached node with
  their paths, in the order in which \<^verbatim>\<open>iterateRefs\<close> meets them, the keys they have for
  an owner, the nodes that hold raw nodes only (what \<^verbatim>\<open>simplifyNode\<close> returns), and one
  more parent for a key that is resident.
\<close>


fun hashRefs :: "node \<Rightarrow> bytes \<Rightarrow> (bytes \<times> hash) list"
  and hashRefsFull :: "node list \<Rightarrow> nat \<Rightarrow> bytes \<Rightarrow> (bytes \<times> hash) list" where
  "hashRefs (RawShortNode k v) path = hashRefs v (path @ k)"
| "hashRefs (RawFullNode cs) path = hashRefsFull cs 0 path"
| "hashRefs (HashNode h) path = [(path, BytesToHash h)]"
| "hashRefs (ValueNode v) path = []"
| "hashRefs NilNode path = []"
| "hashRefs (ShortNode k v) path = []"
| "hashRefs (FullNode cs) path = []"
| "hashRefsFull [] i path = []"
| "hashRefsFull (c # cs) i path =
     (if i < 16 then hashRefs c (path @ [of_nat i]) @ hashRefsFull cs (Suc i) path else [])"

fun isRaw :: "node \<Rightarrow> bool" and isRawList :: "node list \<Rightarrow> bool" where
  "isRaw (RawShortNode k v) = isRaw v"
| "isRaw (RawFullNode cs) = isRawList cs"
| "isRaw (HashNode h) = True"
| "isRaw (ValueNode v) = True"
| "isRaw NilNode = True"
| "isRaw (ShortNode k v) = False"
| "isRaw (FullNode cs) = False"
| "isRawList [] = True"
| "isRawList (c # cs) = (isRaw c \<and> isRawList cs)"

definition bumpParent :: "key \<Rightarrow> Database \<Rightarrow> Database" where
  "bumpParent k db =
     (case getNode db k of None \<Rightarrow> db | Some c \<Rightarrow> setNode k (c\<lparr>parents := parents c + 1\<rparr>) db)"

definition refKeys :: "env \<Rightarrow> hash \<Rightarrow> node \<Rightarrow> bytes \<Rightarrow> key list" where
  "refKeys E owner n path = map (\<lambda>(p, h). encodeKey E owner p h) (hashRefs n path)"

subsection \<open>Reference\<close>

text \<open>The last three statements of \<^verbatim>\<open>reference\<close>, after the check for a known edge.\<close>

definition addReference :: "key \<Rightarrow> key \<Rightarrow> Database \<Rightarrow> fault + Database" where
  "addReference childKey parentKey db =
     (case getNode db childKey of
        None \<Rightarrow> Inl NilPointerDereference
      | Some c \<Rightarrow>
          let db1 = setNode childKey (c\<lparr>parents := parents c + 1\<rparr>) db in
          (case getNode db1 parentKey of
             None \<Rightarrow> Inl NilPointerDereference
           | Some p \<Rightarrow>
               (case children p of
                  None \<Rightarrow> Inl NilPointerDereference
                | Some m \<Rightarrow>
                    let cnt = (case map_of m childKey of None \<Rightarrow> 0 | Some x \<Rightarrow> x) + 1;
                        db2 = setNode parentKey (p\<lparr>children := Some (AList.update childKey cnt m)\<rparr>) db1
                    in if cnt = 1
                       then Inr (db2\<lparr>childrenSize := childrenSize db2 + int (HashLength + 2)\<rparr>)
                       else Inr db2)))"

definition reference :: "env \<Rightarrow> hash \<Rightarrow> hash \<Rightarrow> hash \<Rightarrow> bytes \<Rightarrow> Database \<Rightarrow> fault + Database" where
  "reference E owner child parent parentPath db =
     (let childKey = encodeKey E owner [] child in
      case getNode db childKey of
        None \<Rightarrow> Inr db
      | Some _ \<Rightarrow>
          let parentKey = encodeKey E 0 parentPath parent in
          (case getNode db parentKey of
             None \<Rightarrow> Inl NilPointerDereference
           | Some p \<Rightarrow>
               (case children p of
                  None \<Rightarrow>
                    addReference childKey parentKey
                      ((setNode parentKey (p\<lparr>children := Some []\<rparr>) db)
                         \<lparr>childrenSize := childrenSize db + int cachedNodeChildrenSize\<rparr>)
                | Some m \<Rightarrow>
                    if map_of m childKey \<noteq> None \<and> parent \<noteq> 0 then Inr db
                    else addReference childKey parentKey db)))"

definition Reference :: "env \<Rightarrow> hash \<Rightarrow> hash \<Rightarrow> hash \<Rightarrow> bytes \<Rightarrow> Database \<Rightarrow> fault + Database" where
  "Reference E owner child parent parentPath db = reference E owner child parent parentPath db"

subsection \<open>Dereference\<close>

text \<open>
  The \<^verbatim>\<open>switch\<close> that takes a node out of the flush-list; \<^verbatim>\<open>dereference\<close> and
  \<^verbatim>\<open>cleaner.Put\<close> both have it. \<open>n\<close> is the node as the pointer shows it when the
  switch starts; the neighbours are written through \<^verbatim>\<open>db.dirties[...]\<close>.
\<close>

definition unlinkFlush :: "key \<Rightarrow> cachedNode \<Rightarrow> Database \<Rightarrow> fault + Database" where
  "unlinkFlush k n db =
     (if k = oldest db then
        (let db1 = db\<lparr>oldest := flushNext n\<rparr> in
         case getNode db1 (flushNext n) of
           None \<Rightarrow> Inl NilPointerDereference
         | Some nx \<Rightarrow> Inr (setNode (flushNext n) (nx\<lparr>flushPrev := metaRoot\<rparr>) db1))
      else if k = newest db then
        (let db1 = db\<lparr>newest := flushPrev n\<rparr> in
         case getNode db1 (flushPrev n) of
           None \<Rightarrow> Inl NilPointerDereference
         | Some pv \<Rightarrow> Inr (setNode (flushPrev n) (pv\<lparr>flushNext := metaRoot\<rparr>) db1))
      else
        (case getNode db (flushPrev n) of
           None \<Rightarrow> Inl NilPointerDereference
         | Some pv \<Rightarrow>
             let db1 = setNode (flushPrev n) (pv\<lparr>flushNext := flushNext n\<rparr>) db in
             (case getNode db1 (flushNext n) of
                None \<Rightarrow> Inl NilPointerDereference
              | Some nx \<Rightarrow> Inr (setNode (flushNext n) (nx\<lparr>flushPrev := flushPrev n\<rparr>) db1))))"

text \<open>The first block of \<^verbatim>\<open>dereference\<close>: one reference less on the edge from the parent.\<close>

definition dropEdge :: "key \<Rightarrow> key \<Rightarrow> cachedNode \<Rightarrow> Database \<Rightarrow> Database" where
  "dropEdge parentKey childKey parent db =
     (case children parent of
        None \<Rightarrow> db
      | Some m \<Rightarrow>
          (case map_of m childKey of
             None \<Rightarrow> db
           | Some c \<Rightarrow>
               if c > 0 then
                 (if c - 1 = 0
                  then (setNode parentKey (parent\<lparr>children := Some (AList.delete childKey m)\<rparr>) db)
                         \<lparr>childrenSize := childrenSize db - int (HashLength + 2)\<rparr>
                  else setNode parentKey (parent\<lparr>children := Some (AList.update childKey (c - 1) m)\<rparr>) db)
               else db))"

text \<open>The end of \<^verbatim>\<open>dereference\<close>: the child leaves the dirty map, and the sizes follow.\<close>

definition removeChild :: "key \<Rightarrow> cachedNode \<Rightarrow> Database \<Rightarrow> Database" where
  "removeChild k c db =
     (let db5 = (deleteNode k db)\<lparr>dirtiesSize := dirtiesSize db - int (HashLength + unat (size_n c))\<rparr>
      in if children c \<noteq> None
         then db5\<lparr>childrenSize := childrenSize db5 - int cachedNodeChildrenSize\<rparr>
         else db5)"

text \<open>
  \<^verbatim>\<open>dereference\<close> calls itself from the callback of \<^verbatim>\<open>iterateRefs\<close>, with no bound of
  its own on the depth: the model recurses on a fuel, and a call that runs out of it is
  the fault \<open>OutOfFuel\<close>. After the recursion the size and the nil-ness of the children
  map are read through the pointer \<^verbatim>\<open>child\<close>, which the recursion does not change.
\<close>

fun dereference :: "nat \<Rightarrow> env \<Rightarrow> hash \<Rightarrow> hash \<Rightarrow> bytes \<Rightarrow> hash \<Rightarrow> hash \<Rightarrow> bytes \<Rightarrow> Database
                      \<Rightarrow> fault + Database" where
  "dereference 0 E childOwner childHash childPath parentOwner parentHash parentPath db =
     Inl OutOfFuel"
| "dereference (Suc fuel) E childOwner childHash childPath parentOwner parentHash parentPath db =
     (let parentKey = encodeKey E parentOwner parentPath parentHash in
      case getNode db parentKey of
        None \<Rightarrow> Inl NilPointerDereference
      | Some parent \<Rightarrow>
          let childKey = encodeKey E childOwner childPath childHash;
              db1 = dropEdge parentKey childKey parent db
          in (case getNode db1 childKey of
                None \<Rightarrow> Inr db1
              | Some child0 \<Rightarrow>
                  let child = (if parents child0 > 0 then child0\<lparr>parents := parents child0 - 1\<rparr>
                               else child0);
                      db2 = setNode childKey child db1
                  in if parents child = 0 then
                       (case unlinkFlush childKey child db2 of
                          Inl f \<Rightarrow> Inl f
                        | Inr db3 \<Rightarrow>
                            (case iterateRefs (node child) childPath
                                    (\<lambda>innerPath innerHash s.
                                       case dereference fuel E childOwner innerHash innerPath
                                              childOwner childHash childPath s of
                                         Inl f \<Rightarrow> Inl f
                                       | Inr s' \<Rightarrow> Inr (None, s'))
                                    db3 of
                               Inl f \<Rightarrow> Inl f
                             | Inr (_, db4) \<Rightarrow> Inr (removeChild childKey child db4)))
                     else Inr db2))"

text \<open>\<^verbatim>\<open>Dereference\<close>: the meta-root is not dereferenced.\<close>

definition Dereference :: "nat \<Rightarrow> env \<Rightarrow> hash \<Rightarrow> Database \<Rightarrow> fault + Database" where
  "Dereference fuel E root db =
     (if root = 0 then Inr db
      else dereference fuel E 0 root [] 0 0 [] db)"

subsection \<open>Size\<close>

text \<open>\<^verbatim>\<open>Size\<close>: the tracked memory of the dirty cache and the size of the preimages.\<close>

definition Size :: "env \<Rightarrow> Database \<Rightarrow> fault + StorageSize \<times> StorageSize" where
  "Size E db =
     (case getNode db metaRoot of
        None \<Rightarrow> Inl NilPointerDereference
      | Some root \<Rightarrow>
          let metadataSize = (int (length (dirties db)) - 1) * int (cachedNodeSize E);
              metarootRefs = int (lenChildren root * (HashLength + 2))
          in Inr (dirtiesSize db + childrenSize db + metadataSize - metarootRefs, preimagesSize db))"

section \<open>The pruner\<close>

text \<open>
  Modelled from the spec: \<^verbatim>\<open>newCommitRecord\<close>, \<^verbatim>\<open>CommitRecord.add\<close> and
  \<^verbatim>\<open>rawdb.DeleteCommitRecord\<close> are outside the tree. A fresh record has the block's number
  and hash and no key; every key written during the window is appended to the record; the
  identity of a persisted record is its block number and block hash.
\<close>

definition newCommitRecord :: "64 word \<Rightarrow> hash \<Rightarrow> CommitRecord" where
  "newCommitRecord num h = \<lparr>number = num, hash = h, Keys = []\<rparr>"

definition add :: "key \<Rightarrow> CommitRecord \<Rightarrow> CommitRecord" where
  "add k r = r\<lparr>Keys := Keys r @ [k]\<rparr>"

definition DeleteCommitRecord :: "64 word \<Rightarrow> hash \<Rightarrow> diskdb \<Rightarrow> diskdb" where
  "DeleteCommitRecord num h d = d\<lparr>store := (store d)(CommitRecordKey num h := None)\<rparr>"

text \<open>\<^verbatim>\<open>checkRecords\<close>: \<open>True\<close> where the code goes on, \<open>False\<close> where it calls \<^verbatim>\<open>log.Crit\<close>.\<close>

fun checkRecords :: "CommitRecord list \<Rightarrow> bool" where
  "checkRecords [] = True"
| "checkRecords [r] = True"
| "checkRecords (r # r' # rs) = (if number r \<ge> number r' then False else checkRecords (r' # rs))"

text \<open>\<^verbatim>\<open>sort.Sort(commitRecordsByNumber(...))\<close>: ascending block numbers. The order of
  records with one number is not fixed by \<^verbatim>\<open>sort.Sort\<close>; the model keeps it.\<close>

definition sortRecords :: "CommitRecord list \<Rightarrow> CommitRecord list" where
  "sortRecords rs = sort_key number rs"

definition commitStart :: "64 word \<Rightarrow> hash \<Rightarrow> pruner \<Rightarrow> fault + pruner" where
  "commitStart num h p =
     (if current p \<noteq> None then Inl LogCrit
      else
        let live = length (records p) in
        if int live \<ge> MaximumRecords (config p) then Inr p
        else Inr (p\<lparr>current := Some (newCommitRecord num h)\<rparr>))"

definition addKey :: "key \<Rightarrow> bool \<Rightarrow> pruner \<Rightarrow> error option \<times> pruner" where
  "addKey k partial p =
     (let p1 = p\<lparr>written := written p + 1\<rparr> in
      if \<not> partial then
        (case current p1 of
           Some c \<Rightarrow> (None, p1\<lparr>current := Some (add k c)\<rparr>)
         | None \<Rightarrow> (None, p1\<lparr>cleanKeys := cleanKeys p1 @ [k]\<rparr>))
      else (None, p1\<lparr>partialKeys := partialKeys p1 @ [k]\<rparr>))"

definition commitEnd :: "env \<Rightarrow> pruner \<times> diskdb \<Rightarrow> fault + error option \<times> pruner \<times> diskdb" where
  "commitEnd E pd =
     (case pd of (p, d) \<Rightarrow>
        (case current p of
           None \<Rightarrow> Inr (None, p, d)
         | Some c \<Rightarrow>
             (case finalize E c (partialKeys p) (cleanKeys p) d of
                ((iter, filt, exist, Some err), d') \<Rightarrow> Inr (Some err, p, d')
              | ((iter, filt, exist, None), d') \<Rightarrow>
                  let p1 = p\<lparr>iterated := iterated p + of_nat iter,
                              filtered := filtered p + of_nat filt\<rparr>;
                      p2 = (if exist
                            then (let rs = sortRecords (records p1 @ [c])
                                  in p1\<lparr>records := rs, minRecord := number (hd rs)\<rparr>)
                            else p1)
                  in if exist \<and> \<not> checkRecords (records p2) then Inl LogCrit
                     else Inr (None, p2\<lparr>current := None, partialKeys := [], cleanKeys := []\<rparr>, d'))))"

definition filterRecords :: "64 word \<Rightarrow> pruner \<Rightarrow> CommitRecord list" where
  "filterRecords num p = filter (\<lambda>r. number r < num) (records p)"

text \<open>
  \<^verbatim>\<open>removeRecord\<close> ranges over the slice \<^verbatim>\<open>p.records\<close> as it was when the loop started and
  shortens and sorts \<^verbatim>\<open>p.records\<close> inside the loop, in the same backing array: the loop
  reads the array as the removals have left it. \<open>arr\<close> is that array, \<open>len\<close> the length
  of \<^verbatim>\<open>p.records\<close>, which is always a prefix of it. Slicing \<^verbatim>\<open>p.records[i+1:]\<close> beyond the
  length panics.
\<close>

fun removeLoop :: "CommitRecord \<Rightarrow> nat \<Rightarrow> nat \<Rightarrow> CommitRecord list \<times> nat \<times> bool
                     \<Rightarrow> fault + CommitRecord list \<times> nat \<times> bool" where
  "removeLoop record 0 i st = Inr st"
| "removeLoop record (Suc todo) i (arr, len, found) =
     (let r = arr ! i in
      if number r = number record \<and> hash r = hash record then
        (if i + 1 > len then Inl SliceOutOfRange
         else
           let shifted = take i arr @ drop (i + 1) (take len arr);
               arr' = sortRecords shifted @ drop (len - 1) arr
           in removeLoop record todo (Suc i) (arr', len - 1, True))
      else removeLoop record todo (Suc i) (arr, len, found))"

definition removeRecord :: "CommitRecord \<Rightarrow> pruner \<times> diskdb \<Rightarrow> fault + pruner \<times> diskdb" where
  "removeRecord record pd =
     (case pd of (p, d) \<Rightarrow>
        (case removeLoop record (length (records p)) 0 (records p, length (records p), False) of
           Inl f \<Rightarrow> Inl f
         | Inr (arr, len, found) \<Rightarrow>
             if \<not> found then Inl LogCrit
             else if \<not> checkRecords (take len arr) then Inl LogCrit
             else Inr (p\<lparr>records := take len arr\<rparr>,
                       DeleteCommitRecord (number record) (hash record) d)))"

text \<open>
  A pruning run. The interrupt flag is set by the loop of the pruner while the run goes
  on; the run is given the values that its loads of the flag return, one for each record,
  and a load with no value left reads 0.
\<close>

fun pruning :: "env \<Rightarrow> CommitRecord list \<Rightarrow> bool list \<Rightarrow> pruner \<times> diskdb \<Rightarrow> fault + pruner \<times> diskdb" where
  "pruning E [] interrupt pd = Inr pd"
| "pruning E (r # rs) interrupt pd =
     (if (case interrupt of [] \<Rightarrow> False | b # _ \<Rightarrow> b) then Inr pd
      else if \<not> IsCanonical (config (fst pd)) (number r) (hash r) then
        (case removeRecord r pd of
           Inl f \<Rightarrow> Inl f
         | Inr pd' \<Rightarrow> pruning E rs (tl interrupt) pd')
      else
        (case readCommitRecord E (snd pd) (number r) (hash r) of
           Inl err \<Rightarrow>
             (case removeRecord r pd of
                Inl f \<Rightarrow> Inl f
              | Inr pd' \<Rightarrow> pruning E rs (tl interrupt) pd')
         | Inr record \<Rightarrow>
             (case deleteStale E record pd of
                Inl f \<Rightarrow> Inl f
              | Inr pd' \<Rightarrow> pruning E rs (tl interrupt) pd')))"

text \<open>
  The loop of the pruner: what it remembers between two messages, and what it does with
  each. \<open>running\<close> says that \<^verbatim>\<open>done\<close> is not nil, \<open>interruptFlag\<close> is the flag that
  \<^verbatim>\<open>interrupt\<close> points to, if any. A signal that starts a run hands the filtered records
  to the run.
\<close>

record loopState =
  paused :: bool
  running :: bool
  interruptFlag :: "bool option"

datatype message = Signal "64 word" | PauseCh | ResumeCh | DoneCh | CloseCh

definition onSignal :: "pruner \<Rightarrow> 64 word \<Rightarrow> loopState \<Rightarrow> loopState \<times> CommitRecord list option" where
  "onSignal p num ls =
     (if paused ls then (ls, None)
      else if running ls then (ls, None)
      else if num < of_nat minBlockConfirms then (ls, None)
      else
        let ret = filterRecords (num - of_nat minBlockConfirms) p in
        if length ret = 0 then (ls, None)
        else (ls\<lparr>running := True, interruptFlag := Some False\<rparr>, Some ret))"

fun loopStep :: "pruner \<Rightarrow> message \<Rightarrow> loopState \<Rightarrow> fault + loopState \<times> CommitRecord list option" where
  "loopStep p (Signal num) ls = Inr (onSignal p num ls)"
| "loopStep p PauseCh ls =
     (if paused ls then Inl LogCrit
      else if interruptFlag ls = Some False
        then Inr (ls\<lparr>paused := True, interruptFlag := Some True\<rparr>, None)
        else Inr (ls\<lparr>paused := True\<rparr>, None))"
| "loopStep p ResumeCh ls =
     (if \<not> paused ls then Inl LogCrit
      else if interruptFlag ls = Some False then Inl LogCrit
      else Inr (ls\<lparr>paused := False\<rparr>, None))"
| "loopStep p DoneCh ls = Inr (ls\<lparr>running := False, interruptFlag := None\<rparr>, None)"
| "loopStep p CloseCh ls = Inr (ls, None)"

text \<open>For the statements about the pruner: two records with one identity (number and
  hash), and a list of records with strictly increasing numbers, which is what
  \<^verbatim>\<open>checkRecords\<close> lets pass.\<close>


definition sameRecord :: "CommitRecord \<Rightarrow> CommitRecord \<Rightarrow> bool" where
  "sameRecord r x = (number x = number r \<and> hash x = hash r)"

definition increasing :: "CommitRecord list \<Rightarrow> bool" where
  "increasing rs = sorted_wrt (\<lambda>a b. number a < number b) rs"

section \<open>Flushing to disk\<close>

text \<open>\<^verbatim>\<open>writeNode\<close>: the key is reported to the pruner and the node is put into the batch.\<close>

definition writeNode :: "env \<Rightarrow> hash \<Rightarrow> bytes \<Rightarrow> hash \<Rightarrow> bytes \<Rightarrow> bool \<Rightarrow> Database \<times> batch
                           \<Rightarrow> error option \<times> Database \<times> batch" where
  "writeNode E owner path h blob partial st =
     (case st of (db, b) \<Rightarrow>
        let k = encodeKey E owner path h in
        (case addKey k partial (pruner db) of
           (Some err, p') \<Rightarrow> (Some err, db\<lparr>pruner := p'\<rparr>, b)
         | (None, p') \<Rightarrow> (None, db\<lparr>pruner := p'\<rparr>, WriteTrieNode k blob b)))"

text \<open>\<^verbatim>\<open>db.pruner.flushMarker(batch)\<close> followed by \<^verbatim>\<open>batch.Write()\<close>, each returning its
  error to the caller.\<close>

definition writeBatch :: "env \<Rightarrow> Database \<times> batch \<Rightarrow> error option \<times> Database \<times> batch" where
  "writeBatch E st =
     (case st of (db, b) \<Rightarrow>
        (case flushMarker E (pruner db) b of
           (Some err, p', b') \<Rightarrow> (Some err, db\<lparr>pruner := p'\<rparr>, b')
         | (None, p', b') \<Rightarrow>
             (case Write b' (diskdb db) of
                (Some err, d') \<Rightarrow> (Some err, db\<lparr>pruner := p', diskdb := d'\<rparr>, b')
              | (None, d') \<Rightarrow> (None, db\<lparr>pruner := p', diskdb := d'\<rparr>, b'))))"

subsection \<open>The cleaner\<close>




subsection \<open>Cap\<close>

text \<open>
  The first loop of \<^verbatim>\<open>Cap\<close>: nodes are put into the batch from the head of the flush-list
  while the size is above the limit. Every round takes at least the 32 bytes of a hash
  from the size, which is why the loop ends.
\<close>

definition capFlush :: "env \<Rightarrow> Database \<times> batch \<Rightarrow> error option \<times> Database \<times> batch" where
  "capFlush E st =
     (if ValueSize (snd st) \<ge> IdealBatchSize E then
        (case writeBatch E st of
           (Some err, db', b') \<Rightarrow> (Some err, db', b')
         | (None, db', b') \<Rightarrow> (None, db', Reset b'))
      else (None, st))"

definition capShrink :: "env \<Rightarrow> cachedNode \<Rightarrow> StorageSize \<Rightarrow> StorageSize" where
  "capShrink E n sz =
     (let sz1 = sz - int (HashLength + unat (size_n n) + cachedNodeSize E) in
      if children n \<noteq> None
      then sz1 - int (cachedNodeChildrenSize + lenChildren n * (HashLength + 2))
      else sz1)"

lemma capShrink_less: "capShrink E n sz < sz"
proof -
  have "0 \<le> uint (size_n n)" by simp
  then show ?thesis
    unfolding capShrink_def HashLength_def Let_def
    by (simp only: of_nat_add of_nat_numeral split: if_split) linarith
qed

function capLoop :: "env \<Rightarrow> StorageSize \<Rightarrow> StorageSize \<Rightarrow> key \<Rightarrow> Database \<times> batch
                       \<Rightarrow> fault + error option \<times> key \<times> Database \<times> batch" where
  "capLoop E limit sz old st =
     (if sz > limit \<and> old \<noteq> metaRoot then
        (case getNode (fst st) old of
           None \<Rightarrow> Inl NilPointerDereference
         | Some n \<Rightarrow>
             (case decodeKey E old of
                (owner, path, h) \<Rightarrow>
                  (case rlp E n of
                     Inl f \<Rightarrow> Inl f
                   | Inr blob \<Rightarrow>
                       (case writeNode E owner path h blob True st of
                          (Some err, st1) \<Rightarrow> Inr (Some err, old, st1)
                        | (None, st1) \<Rightarrow>
                            (case capFlush E st1 of
                               (Some err, st2) \<Rightarrow> Inr (Some err, old, st2)
                             | (None, st2) \<Rightarrow>
                                 capLoop E limit (capShrink E n sz) (flushNext n) st2)))))
      else Inr (None, old, st))"
  by pat_completeness auto
termination
  by (relation "measure (\<lambda>(E, limit, sz, old, st). nat (sz - limit))")
     (use capShrink_less in \<open>auto simp add: less_diff_eq\<close>)

text \<open>The second loop of \<^verbatim>\<open>Cap\<close>: the nodes before \<open>old\<close> leave the dirty map.\<close>

lemma length_delete_less:
  "map_of xs k = Some v \<Longrightarrow> length (AList.delete k xs) < length xs"
  by (induction xs) (auto simp add: less_Suc_eq_le AList.delete_eq split: if_splits)

function capUncache :: "key \<Rightarrow> Database \<Rightarrow> fault + Database" where
  "capUncache old db =
     (if oldest db \<noteq> old then
        (case getNode db (oldest db) of
           None \<Rightarrow> Inl NilPointerDereference
         | Some n \<Rightarrow>
             let db1 = (deleteNode (oldest db) db)
                         \<lparr>oldest := flushNext n,
                          dirtiesSize := dirtiesSize db - int (HashLength + unat (size_n n))\<rparr>
             in capUncache old
                  (if children n \<noteq> None
                   then db1\<lparr>childrenSize := childrenSize db1
                              - int (cachedNodeChildrenSize + lenChildren n * (HashLength + 2))\<rparr>
                   else db1))
      else Inr db)"
  by pat_completeness auto
termination
  by (relation "measure (\<lambda>(old, db). length (dirties db))")
     (auto simp add: getNode_def deleteNode_def length_delete_less)

definition Cap :: "env \<Rightarrow> StorageSize \<Rightarrow> Database \<Rightarrow> fault + error option \<times> Database" where
  "Cap E limit db =
     (let b = NewBatch in
      case getNode db metaRoot of
        None \<Rightarrow> Inl NilPointerDereference
      | Some root \<Rightarrow>
          let sz = dirtiesSize db + (int (length (dirties db)) - 1) * int (cachedNodeSize E)
                   + childrenSize db - int (lenChildren root * (HashLength + 2));
              flushPreimages = (preimagesSize db > 4 * 1024 * 1024)
          in (case (if flushPreimages then
                      (case preimages db of
                         None \<Rightarrow> (None, db, b)
                       | Some ps \<Rightarrow>
                           let b1 = WritePreimages ps b in
                           if ValueSize b1 > IdealBatchSize E then
                             (case Write b1 (diskdb db) of
                                (Some err, d') \<Rightarrow> (Some err, db\<lparr>diskdb := d'\<rparr>, b1)
                              | (None, d') \<Rightarrow> (None, db\<lparr>diskdb := d'\<rparr>, Reset b1))
                           else (None, db, b1))
                    else (None, db, b)) of
                (Some err, db1, b1) \<Rightarrow> Inr (Some err, db1)
              | (None, st1) \<Rightarrow>
                  (case capLoop E limit sz (oldest db) st1 of
                     Inl f \<Rightarrow> Inl f
                   | Inr (Some err, old, db2, b2) \<Rightarrow> Inr (Some err, db2)
                   | Inr (None, old, st2) \<Rightarrow>
                       (case writeBatch E st2 of
                          (Some err, db3, b3) \<Rightarrow> Inr (Some err, db3)
                        | (None, db3, b3) \<Rightarrow>
                            let db4 = (if flushPreimages
                                       then (case preimages db3 of
                                               None \<Rightarrow> db3
                                             | Some ps \<Rightarrow> db3\<lparr>preimages := Some [], preimagesSize := 0\<rparr>)
                                       else db3)
                            in (case capUncache old db4 of
                                  Inl f \<Rightarrow> Inl f
                                | Inr db5 \<Rightarrow>
                                    if oldest db5 \<noteq> metaRoot then
                                      (case getNode db5 (oldest db5) of
                                         None \<Rightarrow> Inl NilPointerDereference
                                       | Some n \<Rightarrow>
                                           Inr (None, setNode (oldest db5) (n\<lparr>flushPrev := metaRoot\<rparr>) db5))
                                    else Inr (None, db5))))))"

subsection \<open>Commit\<close>







text \<open>\<^verbatim>\<open>newPruner\<close> and \<^verbatim>\<open>NewDatabaseWithConfig\<close> on an empty store, with preimages
  recorded and no clean cache: no record is tracked, and the dirty map holds the meta-root
  alone, with an empty children map.\<close>

definition newPruner :: "PrunerConfig \<Rightarrow> pruner" where
  "newPruner c = \<lparr>config = c, partialKeys = [], cleanKeys = [], current = None, records = [],
                  minRecord = - 1, written = 0, iterated = 0, filtered = 0, resurrected = 0\<rparr>"

definition NewDatabaseWithConfig :: "PrunerConfig \<Rightarrow> Database" where
  "NewDatabaseWithConfig c =
     \<lparr>diskdb = \<lparr>store = Map.empty, failures = []\<rparr>,
      cleans = None,
      dirties = [(metaRoot, \<lparr>node = NilNode, size_n = 0, parents = 0, children = Some [],
                             flushPrev = [], flushNext = []\<rparr>)],
      oldest = [], newest = [],
      preimages = Some [],
      dirtiesSize = 0, childrenSize = 0, preimagesSize = 0,
      pruner = newPruner c\<rparr>"

section \<open>What an error leaves behind\<close>



fun noTrieDelete :: "batchop list \<Rightarrow> bool" where
  "noTrieDelete [] = True"
| "noTrieDelete (Put k v # rest) = noTrieDelete rest"
| "noTrieDelete (Delete (TrieNodeKey k) # rest) = False"
| "noTrieDelete (Delete k # rest) = noTrieDelete rest"



section \<open>An instance of the parameters\<close>

text \<open>
  The examples run the model on an instance of its parameters: the codec of the
  specification, where the zero hash stands for the meta-root (\<^verbatim>\<open>Dereference\<close> and
  \<^verbatim>\<open>reference\<close> look the meta-root up under the key of the zero hash), an encoder that
  fails on the nil node of the meta-root and gives one byte for every other node, a marker
  flush that does nothing, a \<^verbatim>\<open>finalize\<close> that accepts every record, and an oracle for
  which block \<open>n\<close> is canonical with the hash \<open>n\<close>.
\<close>

text \<open>
  The key decoding of the instance is the one of the trie's key encoding (\<^verbatim>\<open>compactToHex\<close>
  and \<^verbatim>\<open>keybytesToHex\<close> of \<^verbatim>\<open>trie/encoding.go\<close>): the bytes are split into nibbles,
  the terminator 16 is appended, and the flag nibble in front says whether the terminator
  stays (flag 2 or 3) and whether one or two nibbles are cut from the front (odd or even
  length). So the compact key \<open>0x20\<close> is the empty key of a leaf, in hex form the
  terminator alone, and the compact key \<open>0x17\<close> is the one nibble 7 of an extension node.
\<close>

definition keybytesToHex :: "bytes \<Rightarrow> bytes" where
  "keybytesToHex str = concat (map (\<lambda>b. [b div 16, b mod 16]) str) @ [16]"

definition compactToHex_impl :: "bytes \<Rightarrow> bytes" where
  "compactToHex_impl compact =
     (if compact = [] then compact
      else let base0 = keybytesToHex compact;
               base = (if hd base0 < 2 then butlast base0 else base0);
               chop = 2 - unat (hd base AND 1)
           in drop chop base)"

definition exampleKey :: "hash \<Rightarrow> bytes \<Rightarrow> hash \<Rightarrow> key" where
  "exampleKey owner path h = (if h = 0 then metaRoot else EncodeNodeKey owner path h)"

definition exampleConfig :: PrunerConfig where
  "exampleConfig = \<lparr>MaximumRecords = 2, IsCanonical = (\<lambda>num h. h = ucast num)\<rparr>"

definition exampleEnv :: env where
  "exampleEnv =
     \<lparr>encodeKey = exampleKey,
      decodeKey = DecodeNodeKey,
      compactToHex = compactToHex_impl,
      rlpEncode = (\<lambda>n. if n = NilNode then None else Some [0xc0]),
      cachedNodeSize = 64,
      IdealBatchSize = 100 * 1024,
      flushMarker = (\<lambda>p b. (None, p, b)),
      finalize = (\<lambda>c pk ck d. ((0, 0, True, None), d)),
      readCommitRecord = (\<lambda>d num h. Inr (newCommitRecord num h)),
      deleteStale = removeRecord\<rparr>"

text \<open>A leaf with the empty key, and the sequencing of calls that may panic.\<close>

definition leaf :: node where
  "leaf = ShortNode [0x20] (ValueNode [1])"

definition andThen :: "fault + 'a \<Rightarrow> ('a \<Rightarrow> fault + 'b) \<Rightarrow> fault + 'b" where
  "andThen r f = (case r of Inl x \<Rightarrow> Inl x | Inr a \<Rightarrow> f a)"

text \<open>
  A state root \<open>A\<close> (hash 1) whose account has the storage root \<open>S\<close> (hash 2, owner 5):
  both are inserted, the account's node references the storage root, and the block
  references its state root.
\<close>

definition accountRun :: "fault + Database" where
  "accountRun =
     andThen (andThen (andThen
       (insert_node exampleEnv 0 [] 1 10 leaf (NewDatabaseWithConfig exampleConfig))
       (insert_node exampleEnv 5 [] 2 10 leaf))
       (Reference exampleEnv 5 2 1 []))
       (Reference exampleEnv 0 1 0 [])"

definition accountState :: Database where
  "accountState =
     \<lparr>diskdb = \<lparr>store = Map.empty, failures = []\<rparr>,
      cleans = None,
      dirties =
        [([], \<lparr>node = NilNode, size_n = 0, parents = 0,
               children = Some [(EncodeNodeKey 0 [] 1, 1)], flushPrev = [], flushNext = []\<rparr>),
         (EncodeNodeKey 0 [] 1,
            \<lparr>node = RawShortNode [16] (ValueNode [1]), size_n = 10, parents = 1,
             children = Some [(EncodeNodeKey 5 [] 2, 1)],
             flushPrev = [], flushNext = EncodeNodeKey 5 [] 2\<rparr>),
         (EncodeNodeKey 5 [] 2,
            \<lparr>node = RawShortNode [16] (ValueNode [1]), size_n = 10, parents = 1,
             children = None, flushPrev = EncodeNodeKey 0 [] 1, flushNext = []\<rparr>)],
      oldest = EncodeNodeKey 0 [] 1,
      newest = EncodeNodeKey 5 [] 2,
      preimages = Some [],
      dirtiesSize = 84, childrenSize = 116, preimagesSize = 0,
      pruner = newPruner exampleConfig\<rparr>"

text \<open>For \<^verbatim>\<open>insert\<close>: a leaf at the path 7 with the hash 4 is resident, and an
  extension node with the key 7 (in compact form \<open>0x17\<close>) points to it.\<close>


definition extension :: node where
  "extension = ShortNode [0x17] (HashNode (Bytes 4))"

definition childState :: Database where
  "childState =
     \<lparr>diskdb = \<lparr>store = Map.empty, failures = []\<rparr>,
      cleans = None,
      dirties =
        [([], \<lparr>node = NilNode, size_n = 0, parents = 0,
               children = Some [], flushPrev = [], flushNext = []\<rparr>),
         (EncodeNodeKey 0 [7] 4,
            \<lparr>node = RawShortNode [16] (ValueNode [1]), size_n = 10, parents = 0,
             children = None, flushPrev = [], flushNext = []\<rparr>)],
      oldest = EncodeNodeKey 0 [7] 4,
      newest = EncodeNodeKey 0 [7] 4,
      preimages = Some [],
      dirtiesSize = 42, childrenSize = 0, preimagesSize = 0,
      pruner = newPruner exampleConfig\<rparr>"

text \<open>
  For the size that \<^verbatim>\<open>insert\<close> tracks: a node of 65535 bytes, the largest that the field
  \<^verbatim>\<open>size\<close> holds, is inserted into the empty cache; then the block references it and
  dereferences it again, which empties the cache.
\<close>

definition wideState :: Database where
  "wideState =
     \<lparr>diskdb = \<lparr>store = Map.empty, failures = []\<rparr>,
      cleans = None,
      dirties =
        [([], \<lparr>node = NilNode, size_n = 0, parents = 0,
               children = Some [], flushPrev = [], flushNext = []\<rparr>),
         (EncodeNodeKey 0 [] 1,
            \<lparr>node = RawShortNode [16] (ValueNode [1]), size_n = 65535, parents = 0,
             children = None, flushPrev = [], flushNext = []\<rparr>)],
      oldest = EncodeNodeKey 0 [] 1,
      newest = EncodeNodeKey 0 [] 1,
      preimages = Some [],
      dirtiesSize = 31, childrenSize = 0, preimagesSize = 0,
      pruner = newPruner exampleConfig\<rparr>"

definition wideGone :: Database where
  "wideGone =
     \<lparr>diskdb = \<lparr>store = Map.empty, failures = []\<rparr>,
      cleans = None,
      dirties =
        [([], \<lparr>node = NilNode, size_n = 0, parents = 0,
               children = Some [], flushPrev = [], flushNext = []\<rparr>)],
      oldest = [],
      newest = EncodeNodeKey 0 [] 1,
      preimages = Some [],
      dirtiesSize = - 65536, childrenSize = 0, preimagesSize = 0,
      pruner = newPruner exampleConfig\<rparr>"

text \<open>For the pruner: the records of the blocks 10 and 20 are tracked, which is as many as
  the configuration allows, and the loop is neither paused nor running.\<close>

definition fullPruner :: pruner where
  "fullPruner = (newPruner exampleConfig)\<lparr>records := [newCommitRecord 10 10, newCommitRecord 20 20]\<rparr>"

definition idle :: loopState where
  "idle = \<lparr>paused = False, running = False, interruptFlag = None\<rparr>"

text \<open>For a pruning run: the record of block 10 is of a side chain (its hash is 11), and
  an instance whose persisted records cannot be read back.\<close>

definition sidePruner :: pruner where
  "sidePruner = (newPruner exampleConfig)\<lparr>records := [newCommitRecord 10 11, newCommitRecord 20 20]\<rparr>"

definition emptyDisk :: diskdb where
  "emptyDisk = \<lparr>store = Map.empty, failures = []\<rparr>"

definition brokenEnv :: env where
  "brokenEnv = exampleEnv\<lparr>readCommitRecord := (\<lambda>d num h. Inl IOError)\<rparr>"

text \<open>
  For \<^verbatim>\<open>Dereference\<close>: the leaf at the path 7 is the hash child of two roots, the
  extension node (hash 3) and a full node (hash 6) that has it as its child 7, and both
  roots are referenced by a block.
\<close>


definition branch :: node where
  "branch = FullNode [NilNode, NilNode, NilNode, NilNode, NilNode, NilNode, NilNode,
                      HashNode (Bytes 4), NilNode, NilNode, NilNode, NilNode, NilNode,
                      NilNode, NilNode, NilNode, NilNode]"

definition sharedRun :: "fault + Database" where
  "sharedRun =
     andThen (andThen (andThen (andThen
       (insert_node exampleEnv 0 [7] 4 10 leaf (NewDatabaseWithConfig exampleConfig))
       (insert_node exampleEnv 0 [] 3 20 extension))
       (insert_node exampleEnv 0 [] 6 30 branch))
       (Reference exampleEnv 0 3 0 []))
       (Reference exampleEnv 0 6 0 [])"

definition sharedLeaf :: cachedNode where
  "sharedLeaf = \<lparr>node = RawShortNode [16] (ValueNode [1]), size_n = 10, parents = 2,
                  children = None, flushPrev = [], flushNext = EncodeNodeKey 0 [] 3\<rparr>"

definition sharedExtension :: cachedNode where
  "sharedExtension = \<lparr>node = RawShortNode [7] (HashNode (Bytes 4)), size_n = 20, parents = 1,
                       children = None, flushPrev = EncodeNodeKey 0 [7] 4,
                       flushNext = EncodeNodeKey 0 [] 6\<rparr>"

definition sharedBranch :: cachedNode where
  "sharedBranch =
     \<lparr>node = RawFullNode [NilNode, NilNode, NilNode, NilNode, NilNode, NilNode, NilNode,
                          HashNode (Bytes 4), NilNode, NilNode, NilNode, NilNode, NilNode,
                          NilNode, NilNode, NilNode, NilNode],
      size_n = 30, parents = 1, children = None,
      flushPrev = EncodeNodeKey 0 [] 3, flushNext = []\<rparr>"

definition sharedRoot :: cachedNode where
  "sharedRoot = \<lparr>node = NilNode, size_n = 0, parents = 0,
                  children = Some [(EncodeNodeKey 0 [] 3, 1), (EncodeNodeKey 0 [] 6, 1)],
                  flushPrev = [], flushNext = []\<rparr>"

definition sharedState :: Database where
  "sharedState =
     \<lparr>diskdb = \<lparr>store = Map.empty, failures = []\<rparr>,
      cleans = None,
      dirties =
        [([], sharedRoot),
         (EncodeNodeKey 0 [7] 4, sharedLeaf),
         (EncodeNodeKey 0 [] 3, sharedExtension),
         (EncodeNodeKey 0 [] 6, sharedBranch)],
      oldest = EncodeNodeKey 0 [7] 4,
      newest = EncodeNodeKey 0 [] 6,
      preimages = Some [],
      dirtiesSize = 156, childrenSize = 68, preimagesSize = 0,
      pruner = newPruner exampleConfig\<rparr>"

text \<open>
  For \<^verbatim>\<open>Cap\<close>: the state above after \<^verbatim>\<open>Dereference\<close> of the state root, where the
  storage root is the only node left, and that state after \<^verbatim>\<open>Cap(0)\<close>.
\<close>


definition orphanState :: Database where
  "orphanState =
     \<lparr>diskdb = \<lparr>store = Map.empty, failures = []\<rparr>,
      cleans = None,
      dirties =
        [([], \<lparr>node = NilNode, size_n = 0, parents = 0,
               children = Some [], flushPrev = [], flushNext = []\<rparr>),
         (EncodeNodeKey 5 [] 2,
            \<lparr>node = RawShortNode [16] (ValueNode [1]), size_n = 10, parents = 1,
             children = None, flushPrev = [], flushNext = []\<rparr>)],
      oldest = EncodeNodeKey 5 [] 2,
      newest = EncodeNodeKey 5 [] 2,
      preimages = Some [],
      dirtiesSize = 42, childrenSize = 34, preimagesSize = 0,
      pruner = newPruner exampleConfig\<rparr>"

definition cappedState :: Database where
  "cappedState =
     \<lparr>diskdb = \<lparr>store = [TrieNodeKey (EncodeNodeKey 5 [] 2) \<mapsto> [0xc0]], failures = []\<rparr>,
      cleans = None,
      dirties =
        [([], \<lparr>node = NilNode, size_n = 0, parents = 0,
               children = Some [], flushPrev = [], flushNext = []\<rparr>)],
      oldest = [],
      newest = EncodeNodeKey 5 [] 2,
      preimages = Some [],
      dirtiesSize = 0, childrenSize = 34, preimagesSize = 0,
      pruner = (newPruner exampleConfig)\<lparr>partialKeys := [EncodeNodeKey 5 [] 2], written := 1\<rparr>\<rparr>"






section \<open>Properties of the codec\<close>

lemma length_hashBytesN: "length (hashBytesN n h) = n"
  by (induction n arbitrary: h) auto

lemma length_Bytes: "length (Bytes h) = 32"
  by (simp add: Bytes_def HashLength_def length_hashBytesN)

lemma push_take_drop_byte:
  "push_bit 8 (take_bit k (drop_bit 8 (w::hash))) OR ucast (ucast w :: byte) = take_bit (k + 8) w"
  by (rule bit_eqI) (auto simp add: bit_simps)

lemma foldl_hashBytesN:
  "foldl (\<lambda>acc b. push_bit 8 acc OR ucast b) 0 (hashBytesN n h) = take_bit (8 * n) h"
proof (induction n arbitrary: h)
  case 0
  show ?case by simp
next
  case (Suc n)
  then show ?case
    by (simp add: push_take_drop_byte add.commute)
qed

lemma BytesToHash_Bytes: "BytesToHash (Bytes h) = h"
proof -
  have "BytesToHash (Bytes h) = take_bit (8 * 32) h"
    unfolding BytesToHash_def Bytes_def HashLength_def by (simp only: foldl_hashBytesN)
  then show ?thesis
    by (simp add: take_bit_word_eq_self)
qed

lemma Decode_Encode: "DecodeNodeKey (EncodeNodeKey owner path h) = (owner, path, h)"
  by (simp add: DecodeNodeKey_def EncodeNodeKey_def HashLength_def length_Bytes BytesToHash_Bytes)

text \<open>
  Claim C4. Decoding an encoded node key gives back the owner, the path and the hash, for
  every owner (the zero owner included) and every path (the empty path included), and two
  triples with the same encoding are the same triple.
\<close>

theorem EncodeNodeKey_roundtrip_injective:
  "DecodeNodeKey (EncodeNodeKey owner path h) = (owner, path, h) \<and>
   (EncodeNodeKey owner path h = EncodeNodeKey owner' path' h' \<longrightarrow>
      owner = owner' \<and> path = path' \<and> h = h')"
proof
  show "DecodeNodeKey (EncodeNodeKey owner path h) = (owner, path, h)"
    by (rule Decode_Encode)
  show "EncodeNodeKey owner path h = EncodeNodeKey owner' path' h' \<longrightarrow>
      owner = owner' \<and> path = path' \<and> h = h'"
  proof
    assume "EncodeNodeKey owner path h = EncodeNodeKey owner' path' h'"
    then have "DecodeNodeKey (EncodeNodeKey owner path h) =
               DecodeNodeKey (EncodeNodeKey owner' path' h')"
      by simp
    then show "owner = owner' \<and> path = path' \<and> h = h'"
      by (simp add: Decode_Encode)
  qed
qed

theorem EncodeNodeKey_roundtrip_injective_witness:
  "EncodeNodeKey 0 [] 7 = EncodeNodeKey 0 [] 7 \<and>
   DecodeNodeKey (EncodeNodeKey 0 [] 7) = (0, [], 7)"
  using EncodeNodeKey_roundtrip_injective [of 0 "[]" 7 0 "[]" 7] by simp

section \<open>Reading the dirty map\<close>

lemma getNode_setNode:
  "getNode (setNode k n db) k' = (if k' = k then Some n else getNode db k')"
  by (simp add: getNode_def setNode_def update_conv')

lemma getNode_deleteNode:
  "getNode (deleteNode k db) k' = (if k' = k then None else getNode db k')"
  by (simp add: getNode_def deleteNode_def delete_conv')

lemma getNode_childrenSize_update: "getNode (db\<lparr>childrenSize := x\<rparr>) k = getNode db k"
  by (simp add: getNode_def)

lemma getNode_dirtiesSize_update: "getNode (db\<lparr>dirtiesSize := x\<rparr>) k = getNode db k"
  by (simp add: getNode_def)

lemma getNode_oldest_update: "getNode (db\<lparr>oldest := x\<rparr>) k = getNode db k"
  by (simp add: getNode_def)

lemma getNode_newest_update: "getNode (db\<lparr>newest := x\<rparr>) k = getNode db k"
  by (simp add: getNode_def)

lemmas getNode_simps =
  getNode_setNode getNode_deleteNode getNode_childrenSize_update getNode_dirtiesSize_update
  getNode_oldest_update getNode_newest_update

section \<open>The examples\<close>

lemma EncodeNodeKey_eq_iff:
  "EncodeNodeKey owner path h = EncodeNodeKey owner' path' h' \<longleftrightarrow>
     owner = owner' \<and> path = path' \<and> h = h'"
  by (metis Decode_Encode prod.inject)

lemma EncodeNodeKey_not_Nil:
  "EncodeNodeKey owner path h \<noteq> []" "[] \<noteq> EncodeNodeKey owner path h"
  by (simp_all add: EncodeNodeKey_def Bytes_def HashLength_def numeral_eq_Suc)

lemma compactToHex_impl_keys:
  "compactToHex_impl [0x20] = [16]" "compactToHex_impl [0x17] = [7]"
  by (simp_all add: compactToHex_impl_def keybytesToHex_def)

lemmas example_defs = compactToHex_impl_keys
  exampleKey_def exampleEnv_def exampleConfig_def NewDatabaseWithConfig_def newPruner_def
  leaf_def andThen_def metaRoot_def HashLength_def cachedNodeChildrenSize_def Let_def
  getNode_def setNode_def deleteNode_def EncodeNodeKey_eq_iff EncodeNodeKey_not_Nil

lemma accountRun_state: "accountRun = Inr accountState"
  unfolding accountRun_def accountState_def
  by (simp add: example_defs insert_node_def insertRef_def Reference_def reference_def
      addReference_def)

lemma childState_run:
  "insert_node exampleEnv 0 [7] 4 10 leaf (NewDatabaseWithConfig exampleConfig) = Inr childState"
  unfolding childState_def
  by (simp add: example_defs insert_node_def insertRef_def)

lemmas shared_defs = sharedState_def sharedRoot_def sharedLeaf_def sharedExtension_def
  sharedBranch_def

lemma sharedRun_state: "sharedRun = Inr sharedState"
  unfolding sharedRun_def shared_defs
  by (simp add: example_defs insert_node_def insertRef_def Reference_def reference_def
      addReference_def extension_def branch_def BytesToHash_Bytes)

section \<open>Reference\<close>

text \<open>
  Claim C10. A call of \<^verbatim>\<open>Reference\<close> whose child key (the owner, the empty path, the hash
  of the child) is not in the dirty map returns the database as it was: no parent count,
  no children map, no size counter and no end of the flush-list has changed.
\<close>

theorem reference_absent_child:
  assumes "getNode db (encodeKey E owner [] child) = None"
  shows "reference E owner child parent parentPath db = Inr db \<and>
         Reference E owner child parent parentPath db = Inr db"
proof -
  from assms have "reference E owner child parent parentPath db = Inr db"
    unfolding reference_def Let_def by simp
  then show ?thesis
    by (simp add: Reference_def)
qed

theorem reference_absent_child_witness:
  "getNode accountState (encodeKey exampleEnv 0 [] 7) = None \<and>
   Reference exampleEnv 0 7 0 [] accountState = Inr accountState"
proof -
  have absent: "getNode accountState (encodeKey exampleEnv 0 [] 7) = None"
    by (simp add: accountState_def example_defs)
  from reference_absent_child [OF absent] absent show ?thesis
    by blast
qed



section \<open>insert\<close>

lemma simplify_isRaw:
  "simplifyNode E n = Inr sn \<Longrightarrow> isRaw sn"
  "simplifyChildren E cs = Inr cs' \<Longrightarrow> isRawList cs'"
  by (induction E n and E cs arbitrary: sn and cs' rule: simplifyNode_simplifyChildren.induct)
     (auto split: sum.splits if_splits)

lemma iterateRefs_total:
  "(\<forall>p h s. f p h s = Inr (None, g p h s)) \<Longrightarrow> isRaw n \<Longrightarrow>
     iterateRefs n path f s = Inr (None, fold (\<lambda>(p, h). g p h) (hashRefs n path) s)"
  "(\<forall>p h s. f p h s = Inr (None, g p h s)) \<Longrightarrow> isRawList cs \<Longrightarrow>
     iterateRefsFull cs i path f s = Inr (None, fold (\<lambda>(p, h). g p h) (hashRefsFull cs i path) s)"
  by (induction n path f s and cs i path f s rule: iterateRefs_iterateRefsFull.induct) auto

lemma insertRef_bump: "insertRef E owner p h db = Inr (None, bumpParent (encodeKey E owner p h) db)"
  by (simp add: insertRef_def bumpParent_def Let_def split: option.splits)

lemma fold_pairs_keys:
  "fold (\<lambda>(p, h). bumpParent (encodeKey E owner p h)) rs db =
   fold bumpParent (map (\<lambda>(p, h). encodeKey E owner p h) rs) db"
  by (induction rs arbitrary: db) auto

lemma iterateRefs_insertRef:
  "isRaw sn \<Longrightarrow>
   iterateRefs sn path (insertRef E owner) db = Inr (None, fold bumpParent (refKeys E owner sn path) db)"
  using iterateRefs_total(1) [of "insertRef E owner" "\<lambda>p h. bumpParent (encodeKey E owner p h)" sn path db]
  by (simp add: insertRef_bump fold_pairs_keys refKeys_def)

lemma bumpParent_fields:
  "oldest (bumpParent k db) = oldest db" "newest (bumpParent k db) = newest db"
  "dirtiesSize (bumpParent k db) = dirtiesSize db" "childrenSize (bumpParent k db) = childrenSize db"
  "preimagesSize (bumpParent k db) = preimagesSize db" "diskdb (bumpParent k db) = diskdb db"
  "pruner (bumpParent k db) = pruner db" "preimages (bumpParent k db) = preimages db"
  "cleans (bumpParent k db) = cleans db"
  by (simp_all add: bumpParent_def setNode_def split: option.splits)

lemma setNode_fields:
  "oldest (setNode k n db) = oldest db" "newest (setNode k n db) = newest db"
  "dirtiesSize (setNode k n db) = dirtiesSize db" "childrenSize (setNode k n db) = childrenSize db"
  by (simp_all add: setNode_def)

lemma fold_bumpParent_fields:
  "oldest (fold bumpParent ks db) = oldest db" "newest (fold bumpParent ks db) = newest db"
  "dirtiesSize (fold bumpParent ks db) = dirtiesSize db"
  "childrenSize (fold bumpParent ks db) = childrenSize db"
  by (induction ks arbitrary: db) (simp_all add: bumpParent_fields)

lemma getNode_bumpParent:
  "getNode (bumpParent k db) k' =
   map_option (\<lambda>c. if k' = k then c\<lparr>parents := parents c + 1\<rparr> else c) (getNode db k')"
  by (cases "getNode db k"; cases "getNode db k'") (auto simp add: bumpParent_def getNode_simps)

lemma getNode_fold_bumpParent:
  "getNode (fold bumpParent ks db) k =
   map_option (\<lambda>c. c\<lparr>parents := parents c + of_nat (count_list ks k)\<rparr>) (getNode db k)"
proof (induction ks arbitrary: db)
  case Nil
  show ?case by (cases "getNode db k") simp_all
next
  case (Cons a ks)
  show ?case
    by (cases "getNode db k") (simp_all add: Cons getNode_bumpParent add.assoc add.commute)
qed

text \<open>
  What \<^verbatim>\<open>insert\<close> does. Inserting a key that is in the dirty map leaves the whole database
  as it was. Inserting a key that is not (where \<^verbatim>\<open>simplifyNode\<close> accepts the node and the
  tail of a non-empty flush-list is resident, as the code takes for granted) makes the new
  entry the tail of the flush-list, with the old tail before it; every other entry keeps
  its fields but for one more parent for each time it is an embedded hash child of the new
  node (so the entries that are no hash child, and the keys that are not resident, are as
  before) and for the old tail's link to the new entry. The dirty size grows by what the
  code computes, the sum of the hash length and the entry's size in \<^verbatim>\<open>uint16\<close>
  arithmetic, which is the sum of the two for an entry of fewer than 65504 bytes only.
\<close>

lemma insert_node_effect:
  "(\<forall>e. getNode db (encodeKey E owner path h) = Some e \<longrightarrow>
      insert_node E owner path h sz n db = Inr db) \<and>
   (getNode db (encodeKey E owner path h) = None \<and> simplifyNode E n = Inr sn \<and>
    (oldest db \<noteq> metaRoot \<longrightarrow> getNode db (newest db) \<noteq> None) \<longrightarrow>
      (\<exists>db'. insert_node E owner path h sz n db = Inr db' \<and>
         getNode db' (encodeKey E owner path h) =
           Some \<lparr>node = sn, size_n = word_of_int sz, parents = 0, children = None,
                 flushPrev = newest db, flushNext = []\<rparr> \<and>
         (\<forall>k. k \<noteq> encodeKey E owner path h \<longrightarrow>
            getNode db' k =
              map_option
                (\<lambda>c. c\<lparr>parents := parents c + of_nat (count_list (refKeys E owner sn path) k),
                        flushNext := (if oldest db \<noteq> metaRoot \<and> k = newest db
                                      then encodeKey E owner path h else flushNext c)\<rparr>)
                (getNode db k)) \<and>
         newest db' = encodeKey E owner path h \<and>
         oldest db' = (if oldest db = metaRoot then encodeKey E owner path h else oldest db) \<and>
         dirtiesSize db' = dirtiesSize db + int (unat (32 + word_of_int sz :: 16 word)) \<and>
         childrenSize db' = childrenSize db))"
proof (intro conjI allI impI)
  fix e
  assume "getNode db (encodeKey E owner path h) = Some e"
  then show "insert_node E owner path h sz n db = Inr db"
    by (simp add: insert_node_def Let_def)
next
  let ?key = "encodeKey E owner path h"
  let ?ks = "refKeys E owner sn path"
  let ?db1 = "fold bumpParent ?ks db"
  assume a: "getNode db ?key = None \<and> simplifyNode E n = Inr sn \<and>
    (oldest db \<noteq> metaRoot \<longrightarrow> getNode db (newest db) \<noteq> None)"
  then have fresh: "getNode db ?key = None" and sn: "simplifyNode E n = Inr sn"
    and tail: "oldest db \<noteq> metaRoot \<longrightarrow> getNode db (newest db) \<noteq> None"
    by simp_all
  have it: "iterateRefs sn path (insertRef E owner) db = Inr (None, ?db1)"
    using sn by (simp add: iterateRefs_insertRef simplify_isRaw)
  show "\<exists>db'. insert_node E owner path h sz n db = Inr db' \<and>
         getNode db' ?key =
           Some \<lparr>node = sn, size_n = word_of_int sz, parents = 0, children = None,
                 flushPrev = newest db, flushNext = []\<rparr> \<and>
         (\<forall>k. k \<noteq> ?key \<longrightarrow>
            getNode db' k =
              map_option
                (\<lambda>c. c\<lparr>parents := parents c + of_nat (count_list ?ks k),
                        flushNext := (if oldest db \<noteq> metaRoot \<and> k = newest db
                                      then ?key else flushNext c)\<rparr>)
                (getNode db k)) \<and>
         newest db' = ?key \<and>
         oldest db' = (if oldest db = metaRoot then ?key else oldest db) \<and>
         dirtiesSize db' = dirtiesSize db + int (unat (32 + word_of_int sz :: 16 word)) \<and>
         childrenSize db' = childrenSize db"
  proof (cases "oldest db = metaRoot")
    case True
    with fresh sn it show ?thesis
      by (auto simp add: insert_node_def Let_def getNode_simps fold_bumpParent_fields
          getNode_fold_bumpParent setNode_fields HashLength_def
          option.map_comp comp_def intro!: option.map_cong)
  next
    case False
    with tail obtain t where t: "getNode db (newest db) = Some t"
      by auto
    with fresh have ne: "newest db \<noteq> ?key"
      by auto
    from False fresh sn it t ne show ?thesis
      by (auto simp add: insert_node_def Let_def getNode_simps fold_bumpParent_fields
          getNode_fold_bumpParent setNode_fields HashLength_def
          option.map_comp comp_def intro!: option.map_cong)
  qed
qed

lemma insert_node_effect_example:
  "insert_node exampleEnv 0 [7] 4 10 leaf childState = Inr childState \<and>
   (\<exists>db' c. insert_node exampleEnv 0 [] 3 20 extension childState = Inr db' \<and>
      getNode db' (EncodeNodeKey 0 [] 3) =
        Some \<lparr>node = RawShortNode [7] (HashNode (Bytes 4)), size_n = 20, parents = 0,
              children = None, flushPrev = EncodeNodeKey 0 [7] 4, flushNext = []\<rparr> \<and>
      getNode db' (EncodeNodeKey 0 [7] 4) = Some c \<and> parents c = 1 \<and>
      flushNext c = EncodeNodeKey 0 [] 3 \<and>
      newest db' = EncodeNodeKey 0 [] 3 \<and> oldest db' = EncodeNodeKey 0 [7] 4 \<and>
      dirtiesSize db' = 42 + 52)"
proof -
  let ?C = "\<lparr>node = RawShortNode [16] (ValueNode [1]), size_n = 10, parents = 0,
             children = None, flushPrev = [], flushNext = []\<rparr>"
  have keyC: "encodeKey exampleEnv 0 [7] 4 = EncodeNodeKey 0 [7] 4"
    and keyP: "encodeKey exampleEnv 0 [] 3 = EncodeNodeKey 0 [] 3"
    by (simp_all add: example_defs)
  have present: "getNode childState (encodeKey exampleEnv 0 [7] 4) = Some ?C"
    by (simp add: childState_def example_defs)
  have fresh: "getNode childState (encodeKey exampleEnv 0 [] 3) = None"
    by (simp add: childState_def example_defs)
  have simplified: "simplifyNode exampleEnv extension = Inr (RawShortNode [7] (HashNode (Bytes 4)))"
    by (simp add: extension_def example_defs)
  have tail: "oldest childState \<noteq> metaRoot \<longrightarrow> getNode childState (newest childState) \<noteq> None"
    by (simp add: childState_def example_defs)
  have keys: "refKeys exampleEnv 0 (RawShortNode [7] (HashNode (Bytes 4))) [] = [EncodeNodeKey 0 [7] 4]"
    by (simp add: refKeys_def BytesToHash_Bytes example_defs)
  have ends: "oldest childState = EncodeNodeKey 0 [7] 4" "newest childState = EncodeNodeKey 0 [7] 4"
    "dirtiesSize childState = 42"
    by (simp_all add: childState_def)
  from insert_node_effect [where db = childState and E = exampleEnv and owner = 0
      and path = "[7]" and h = 4 and sz = 10 and n = leaf] present
  have first: "insert_node exampleEnv 0 [7] 4 10 leaf childState = Inr childState"
    by blast
  from insert_node_effect [where db = childState and E = exampleEnv and owner = 0
      and path = "[]" and h = 3 and sz = 20 and n = extension
      and sn = "RawShortNode [7] (HashNode (Bytes 4))"] fresh simplified tail
  obtain db' where run: "insert_node exampleEnv 0 [] 3 20 extension childState = Inr db'"
    and new: "getNode db' (encodeKey exampleEnv 0 [] 3) =
           Some \<lparr>node = RawShortNode [7] (HashNode (Bytes 4)), size_n = word_of_int 20, parents = 0,
                 children = None, flushPrev = newest childState, flushNext = []\<rparr>"
    and others: "\<forall>k. k \<noteq> encodeKey exampleEnv 0 [] 3 \<longrightarrow>
            getNode db' k =
              map_option
                (\<lambda>c. c\<lparr>parents := parents c + of_nat (count_list
                          (refKeys exampleEnv 0 (RawShortNode [7] (HashNode (Bytes 4))) []) k),
                        flushNext := (if oldest childState \<noteq> metaRoot \<and> k = newest childState
                                      then encodeKey exampleEnv 0 [] 3 else flushNext c)\<rparr>)
                (getNode childState k)"
    and rest: "newest db' = encodeKey exampleEnv 0 [] 3"
      "oldest db' = (if oldest childState = metaRoot then encodeKey exampleEnv 0 [] 3
                     else oldest childState)"
      "dirtiesSize db' = dirtiesSize childState + int (unat (32 + word_of_int 20 :: 16 word))"
    by blast
  from others have "getNode db' (EncodeNodeKey 0 [7] 4) =
      map_option
        (\<lambda>c. c\<lparr>parents := parents c + of_nat (count_list [EncodeNodeKey 0 [7] 4] (EncodeNodeKey 0 [7] 4)),
                flushNext := EncodeNodeKey 0 [] 3\<rparr>)
        (getNode childState (EncodeNodeKey 0 [7] 4))"
    by (simp add: keys keyP ends EncodeNodeKey_eq_iff EncodeNodeKey_not_Nil metaRoot_def)
  with present have child: "getNode db' (EncodeNodeKey 0 [7] 4) =
      Some (?C\<lparr>parents := 1, flushNext := EncodeNodeKey 0 [] 3\<rparr>)"
    by (simp add: keyC)
  from run new child rest have "insert_node exampleEnv 0 [] 3 20 extension childState = Inr db' \<and>
      getNode db' (EncodeNodeKey 0 [] 3) =
        Some \<lparr>node = RawShortNode [7] (HashNode (Bytes 4)), size_n = 20, parents = 0,
              children = None, flushPrev = EncodeNodeKey 0 [7] 4, flushNext = []\<rparr> \<and>
      getNode db' (EncodeNodeKey 0 [7] 4) = Some (?C\<lparr>parents := 1, flushNext := EncodeNodeKey 0 [] 3\<rparr>) \<and>
      parents (?C\<lparr>parents := 1, flushNext := EncodeNodeKey 0 [] 3\<rparr>) = 1 \<and>
      flushNext (?C\<lparr>parents := 1, flushNext := EncodeNodeKey 0 [] 3\<rparr>) = EncodeNodeKey 0 [] 3 \<and>
      newest db' = EncodeNodeKey 0 [] 3 \<and> oldest db' = EncodeNodeKey 0 [7] 4 \<and>
      dirtiesSize db' = 42 + 52"
    by (simp add: keyP ends EncodeNodeKey_not_Nil metaRoot_def)
  then have "\<exists>db' c. insert_node exampleEnv 0 [] 3 20 extension childState = Inr db' \<and>
      getNode db' (EncodeNodeKey 0 [] 3) =
        Some \<lparr>node = RawShortNode [7] (HashNode (Bytes 4)), size_n = 20, parents = 0,
              children = None, flushPrev = EncodeNodeKey 0 [7] 4, flushNext = []\<rparr> \<and>
      getNode db' (EncodeNodeKey 0 [7] 4) = Some c \<and> parents c = 1 \<and>
      flushNext c = EncodeNodeKey 0 [] 3 \<and>
      newest db' = EncodeNodeKey 0 [] 3 \<and> oldest db' = EncodeNodeKey 0 [7] 4 \<and>
      dirtiesSize db' = 42 + 52"
    by blast
  with first show ?thesis
    by blast
qed

lemma insert_node_size_small:
  "getNode db (encodeKey E owner path h) = None \<Longrightarrow>
   insert_node E owner path h sz n db = Inr db' \<Longrightarrow> 0 \<le> sz \<Longrightarrow> sz < 65504 \<Longrightarrow>
   dirtiesSize db' = dirtiesSize db + 32 + sz"
proof -
  assume fresh: "getNode db (encodeKey E owner path h) = None"
    and run: "insert_node E owner path h sz n db = Inr db'"
    and lo: "0 \<le> sz" and hi: "sz < 65504"
  from run fresh obtain sn where sn: "simplifyNode E n = Inr sn"
    by (cases "simplifyNode E n") (auto simp add: insert_node_def Let_def)
  have it: "iterateRefs sn path (insertRef E owner) db = Inr (None, fold bumpParent (refKeys E owner sn path) db)"
    using sn by (simp add: iterateRefs_insertRef simplify_isRaw)
  have "unat (32 + word_of_int sz :: 16 word) = nat (32 + sz)"
  proof -
    have "uint (32 + word_of_int sz :: 16 word) = (32 + sz) mod 65536"
      by (simp add: uint_word_arith_bintrs take_bit_eq_mod uint_word_of_int mod_add_right_eq)
    also have "\<dots> = 32 + sz" using lo hi by simp
    finally show ?thesis by (simp add: unat_eq_nat_uint)
  qed
  with lo have sum: "int (unat (32 + word_of_int sz :: 16 word)) = 32 + sz"
    by simp
  from run fresh sn it sum show ?thesis
    by (auto simp add: insert_node_def Let_def fold_bumpParent_fields setNode_fields HashLength_def
        split: if_splits option.splits)
qed

lemma wide_insert:
  "insert_node exampleEnv 0 [] 1 65535 leaf (NewDatabaseWithConfig exampleConfig) = Inr wideState"
  unfolding wideState_def
  by (simp add: example_defs insert_node_def insertRef_def)

lemma wide_dereference:
  "andThen (Reference exampleEnv 0 1 0 [] wideState) (Dereference (Suc (Suc 0)) exampleEnv 1)
     = Inr wideGone"
  unfolding wideState_def wideGone_def
  by (simp add: example_defs Reference_def reference_def addReference_def
      Dereference_def dropEdge_def unlinkFlush_def removeChild_def)

lemma wide_size: "Size exampleEnv wideGone = Inr (- 65536, 0)"
  unfolding wideGone_def
  by (simp add: example_defs Size_def lenChildren_def)

text \<open>
  Claim C6 does not hold of the code for the largest entries. \<^verbatim>\<open>insert\<close> adds
  \<^verbatim>\<open>common.HashLength + entry.size\<close> to the dirty size, a sum of the type of
  \<^verbatim>\<open>entry.size\<close>, \<^verbatim>\<open>uint16\<close>, which wraps from 65504 bytes on, while \<^verbatim>\<open>dereference\<close>,
  \<^verbatim>\<open>Cap\<close> and \<^verbatim>\<open>cleaner.Put\<close> take \<^verbatim>\<open>common.HashLength + int(size)\<close> away again.
  A node of 65535 bytes, inserted into the empty cache, adds 31 to the dirty size and not
  the 65567 bytes of its hash and its content; once the block has referenced and
  dereferenced it, the cache is empty and its dirty size is -65536.
\<close>

theorem insert_size_wraps:
  "insert_node exampleEnv 0 [] 1 65535 leaf (NewDatabaseWithConfig exampleConfig) = Inr wideState \<and>
   dirtiesSize (NewDatabaseWithConfig exampleConfig) = 0 \<and>
   map_option size_n (getNode wideState (EncodeNodeKey 0 [] 1)) = Some 65535 \<and>
   dirtiesSize wideState = 31 \<and>
   andThen (Reference exampleEnv 0 1 0 [] wideState) (Dereference (Suc (Suc 0)) exampleEnv 1)
     = Inr wideGone \<and>
   map fst (dirties wideGone) = [metaRoot] \<and>
   dirtiesSize wideGone = - 65536 \<and>
   Size exampleEnv wideGone = Inr (- 65536, 0)"
proof -
  have "dirtiesSize (NewDatabaseWithConfig exampleConfig) = 0"
    by (simp add: NewDatabaseWithConfig_def)
  moreover have "map_option size_n (getNode wideState (EncodeNodeKey 0 [] 1)) = Some 65535"
    "dirtiesSize wideState = 31"
    by (simp_all add: wideState_def example_defs)
  moreover have "map fst (dirties wideGone) = [metaRoot]" "dirtiesSize wideGone = - 65536"
    by (simp_all add: wideGone_def metaRoot_def)
  ultimately show ?thesis
    using wide_insert wide_dereference wide_size by blast
qed

section \<open>The pruner\<close>

text \<open>
  Claim C9. \<^verbatim>\<open>commitStart\<close>, called while no record is open, creates the fresh record of
  the block exactly when fewer records are tracked than the configured maximum. When the
  maximum is reached the pruner is left as it was: no record is open, a key written in
  that window goes to the clean keys and to no record, and \<^verbatim>\<open>commitEnd\<close> has nothing to
  persist.
\<close>

theorem commitStart_cap:
  assumes idle: "current p = None"
  shows "(int (length (records p)) < MaximumRecords (config p) \<longrightarrow>
            commitStart num h p = Inr (p\<lparr>current := Some (newCommitRecord num h)\<rparr>)) \<and>
         (\<not> int (length (records p)) < MaximumRecords (config p) \<longrightarrow>
            commitStart num h p = Inr p \<and>
            addKey k False p = (None, p\<lparr>written := written p + 1, cleanKeys := cleanKeys p @ [k]\<rparr>) \<and>
            commitEnd E (p, d) = Inr (None, p, d))"
proof (intro conjI impI)
  assume "int (length (records p)) < MaximumRecords (config p)"
  with idle show "commitStart num h p = Inr (p\<lparr>current := Some (newCommitRecord num h)\<rparr>)"
    by (simp add: commitStart_def Let_def)
next
  assume "\<not> int (length (records p)) < MaximumRecords (config p)"
  with idle show "commitStart num h p = Inr p"
    by (simp add: commitStart_def Let_def)
next
  from idle show "addKey k False p = (None, p\<lparr>written := written p + 1, cleanKeys := cleanKeys p @ [k]\<rparr>)"
    by (simp add: addKey_def Let_def)
next
  from idle show "commitEnd E (p, d) = Inr (None, p, d)"
    by (simp add: commitEnd_def)
qed

theorem commitStart_cap_witness:
  "current (newPruner exampleConfig) = None \<and>
   commitStart 10 10 (newPruner exampleConfig) =
     Inr ((newPruner exampleConfig)\<lparr>current := Some (newCommitRecord 10 10)\<rparr>) \<and>
   current fullPruner = None \<and>
   commitStart 30 30 fullPruner = Inr fullPruner \<and>
   addKey [1] False fullPruner = (None, fullPruner\<lparr>written := written fullPruner + 1,
                                                   cleanKeys := cleanKeys fullPruner @ [[1]]\<rparr>)"
proof -
  have idle: "current (newPruner exampleConfig) = None" "current fullPruner = None"
    by (simp_all add: newPruner_def fullPruner_def)
  have below: "int (length (records (newPruner exampleConfig))) < MaximumRecords (config (newPruner exampleConfig))"
    by (simp add: newPruner_def exampleConfig_def)
  have reached: "\<not> int (length (records fullPruner)) < MaximumRecords (config fullPruner)"
    by (simp add: newPruner_def fullPruner_def exampleConfig_def)
  from commitStart_cap [OF idle(1), of 10 10] below commitStart_cap [OF idle(2), of 30 30 "[1]"] reached idle
  show ?thesis
    by blast
qed

lemma word_less_3600: "(num :: 64 word) < of_nat minBlockConfirms \<longleftrightarrow> unat num < minBlockConfirms"
  by (simp add: minBlockConfirms_def word_less_nat_alt)

lemma unat_sub_3600:
  "\<not> unat (num :: 64 word) < minBlockConfirms \<Longrightarrow>
   unat (num - of_nat minBlockConfirms) = unat num - minBlockConfirms"
  by (simp add: minBlockConfirms_def unat_sub word_le_nat_alt)

text \<open>
  Claim C7. A block-height signal changes nothing while the loop is paused, while a run is
  in flight, and when the height is below \<^verbatim>\<open>minBlockConfirms\<close>. Otherwise the records
  handed to the run are exactly the tracked records whose block number is below the
  height minus \<^verbatim>\<open>minBlockConfirms\<close>, in their order (and no run starts when there is
  none).
\<close>

theorem onSignal_cases:
  "(paused ls \<longrightarrow> loopStep p (Signal num) ls = Inr (ls, None)) \<and>
   (running ls \<longrightarrow> loopStep p (Signal num) ls = Inr (ls, None)) \<and>
   (unat num < minBlockConfirms \<longrightarrow> loopStep p (Signal num) ls = Inr (ls, None)) \<and>
   (\<not> paused ls \<and> \<not> running ls \<and> \<not> unat num < minBlockConfirms \<longrightarrow>
      loopStep p (Signal num) ls =
        (let ret = filter (\<lambda>r. unat (number r) < unat num - minBlockConfirms) (records p)
         in if ret = [] then Inr (ls, None)
            else Inr (ls\<lparr>running := True, interruptFlag := Some False\<rparr>, Some ret)))"
proof (intro conjI impI)
  assume "paused ls"
  then show "loopStep p (Signal num) ls = Inr (ls, None)"
    by (simp add: onSignal_def)
next
  assume "running ls"
  then show "loopStep p (Signal num) ls = Inr (ls, None)"
    by (simp add: onSignal_def)
next
  assume "unat num < minBlockConfirms"
  then show "loopStep p (Signal num) ls = Inr (ls, None)"
    by (simp add: onSignal_def word_less_3600)
next
  assume a: "\<not> paused ls \<and> \<not> running ls \<and> \<not> unat num < minBlockConfirms"
  then have old: "\<not> unat num < minBlockConfirms"
    by simp
  have "filterRecords (num - of_nat minBlockConfirms) p =
        filter (\<lambda>r. unat (number r) < unat num - minBlockConfirms) (records p)"
    by (simp add: filterRecords_def word_less_nat_alt unat_sub_3600 [OF old])
  with a show "loopStep p (Signal num) ls =
        (let ret = filter (\<lambda>r. unat (number r) < unat num - minBlockConfirms) (records p)
         in if ret = [] then Inr (ls, None)
            else Inr (ls\<lparr>running := True, interruptFlag := Some False\<rparr>, Some ret))"
    by (simp add: onSignal_def word_less_3600 Let_def)
qed

theorem onSignal_cases_witness:
  "loopStep fullPruner (Signal 3615) (idle\<lparr>paused := True\<rparr>) = Inr (idle\<lparr>paused := True\<rparr>, None) \<and>
   loopStep fullPruner (Signal 3615) (idle\<lparr>running := True\<rparr>) = Inr (idle\<lparr>running := True\<rparr>, None) \<and>
   loopStep fullPruner (Signal 3599) idle = Inr (idle, None) \<and>
   loopStep fullPruner (Signal 3615) idle =
     Inr (idle\<lparr>running := True, interruptFlag := Some False\<rparr>, Some [newCommitRecord 10 10])"
proof -
  have p: "paused (idle\<lparr>paused := True\<rparr>)" and r: "running (idle\<lparr>running := True\<rparr>)"
    by (simp_all add: idle_def)
  have young: "unat (3599 :: 64 word) < minBlockConfirms"
    by (simp add: minBlockConfirms_def)
  have go: "\<not> paused idle \<and> \<not> running idle \<and> \<not> unat (3615 :: 64 word) < minBlockConfirms"
    by (simp add: idle_def minBlockConfirms_def)
  have ret: "filter (\<lambda>r. unat (number r) < unat (3615 :: 64 word) - minBlockConfirms) (records fullPruner)
             = [newCommitRecord 10 10]"
    by (simp add: fullPruner_def newCommitRecord_def minBlockConfirms_def)
  from onSignal_cases [of "idle\<lparr>paused := True\<rparr>" fullPruner 3615] p
  have c1: "loopStep fullPruner (Signal 3615) (idle\<lparr>paused := True\<rparr>) = Inr (idle\<lparr>paused := True\<rparr>, None)"
    by blast
  from onSignal_cases [of "idle\<lparr>running := True\<rparr>" fullPruner 3615] r
  have c2: "loopStep fullPruner (Signal 3615) (idle\<lparr>running := True\<rparr>) = Inr (idle\<lparr>running := True\<rparr>, None)"
    by blast
  from onSignal_cases [of idle fullPruner 3599] young
  have c3: "loopStep fullPruner (Signal 3599) idle = Inr (idle, None)"
    by blast
  from onSignal_cases [of idle fullPruner 3615] go
  have "loopStep fullPruner (Signal 3615) idle =
        (let ret = filter (\<lambda>r. unat (number r) < unat (3615 :: 64 word) - minBlockConfirms) (records fullPruner)
         in if ret = [] then Inr (idle, None)
            else Inr (idle\<lparr>running := True, interruptFlag := Some False\<rparr>, Some ret))"
    by blast
  then have c4: "loopStep fullPruner (Signal 3615) idle =
     Inr (idle\<lparr>running := True, interruptFlag := Some False\<rparr>, Some [newCommitRecord 10 10])"
    by (simp only: ret Let_def) simp
  from c1 c2 c3 c4 show ?thesis
    by blast
qed

lemma checkRecords_increasing: "checkRecords rs = increasing rs"
proof (induction rs rule: checkRecords.induct)
  case (3 r r' rs)
  have tr: "transp (\<lambda>a b. number a < number (b :: CommitRecord))"
    by (auto simp add: transp_def)
  from 3 show ?case
    unfolding increasing_def by (auto simp add: sorted_wrt2 [OF tr] not_le simp del: sorted_wrt.simps)
qed (simp_all add: increasing_def)

lemma removeLoop_none:
  "(\<forall>t<todo. \<not> sameRecord r (arr ! (i + t))) \<Longrightarrow>
   removeLoop r todo i (arr, len, found) = Inr (arr, len, found)"
proof (induction todo arbitrary: i)
  case 0
  show ?case by simp
next
  case (Suc todo)
  from Suc.prems have here: "\<not> sameRecord r (arr ! i)"
    by (metis add.right_neutral zero_less_Suc)
  from Suc.prems have "\<forall>t<todo. \<not> sameRecord r (arr ! (Suc i + t))"
    by (metis Suc_less_eq add_Suc_shift)
  from Suc.IH [OF this] here show ?case
    by (auto simp add: sameRecord_def Let_def)
qed

lemma removeLoop_skip:
  "(\<forall>t<a. \<not> sameRecord r (arr ! (i + t))) \<Longrightarrow>
   removeLoop r (a + b) i (arr, len, found) = removeLoop r b (i + a) (arr, len, found)"
proof (induction a arbitrary: i)
  case 0
  show ?case by simp
next
  case (Suc a)
  from Suc.prems have here: "\<not> sameRecord r (arr ! i)"
    by (metis add.right_neutral zero_less_Suc)
  from Suc.prems have "\<forall>t<a. \<not> sameRecord r (arr ! (Suc i + t))"
    by (metis Suc_less_eq add_Suc_shift)
  from Suc.IH [OF this] here show ?case
    by (auto simp add: sameRecord_def Let_def)
qed

lemma increasing_split:
  assumes "increasing (xs @ m # ys)" and "sameRecord r m"
  shows "\<forall>x\<in>set xs. \<not> sameRecord r x" and "\<forall>y\<in>set ys. \<not> sameRecord r y"
    and "increasing (xs @ ys)"
  using assms by (auto simp add: increasing_def sorted_wrt_append sameRecord_def)

lemma sortRecords_increasing: "increasing rs \<Longrightarrow> sortRecords rs = rs"
proof -
  assume "increasing rs"
  then have "sorted_wrt (<) (map number rs)"
    by (simp add: increasing_def sorted_wrt_map)
  then have "sorted (map number rs)"
    by (rule strict_sorted_imp_sorted)
  then show ?thesis
    by (simp add: sortRecords_def sort_key_id_if_sorted)
qed

lemma removeLoop_increasing:
  assumes inc: "increasing (xs @ m # ys)" and same: "sameRecord r m"
  shows "removeLoop r (length (xs @ m # ys)) 0 (xs @ m # ys, length (xs @ m # ys), False) =
         Inr ((xs @ ys) @ [last (m # ys)], length (xs @ ys), True)"
proof -
  let ?rs = "xs @ m # ys"
  note sp = increasing_split [OF inc same]
  have before: "\<forall>t<length xs. \<not> sameRecord r (?rs ! (0 + t))"
    using sp(1) by (simp add: nth_append)
  have "removeLoop r (length ?rs) 0 (?rs, length ?rs, False) =
        removeLoop r (Suc (length ys)) (0 + length xs) (?rs, length ?rs, False)"
    using removeLoop_skip [OF before, of "Suc (length ys)" "length ?rs" False] by simp
  also have "\<dots> = removeLoop r (length ys) (Suc (length xs))
                     ((xs @ ys) @ [last (m # ys)], length (xs @ ys), True)"
  proof -
    have d: "drop (length xs + length ys) ?rs = [last (m # ys)]"
      by (cases ys rule: rev_cases) simp_all
    show ?thesis
      using same sortRecords_increasing [OF sp(3)] d
      by (simp add: sameRecord_def Let_def)
  qed
  also have "\<dots> = Inr ((xs @ ys) @ [last (m # ys)], length (xs @ ys), True)"
  proof (rule removeLoop_none, intro allI impI)
    fix t
    assume t: "t < length ys"
    then have "ys \<noteq> []" by auto
    then have l: "last (m # ys) = last ys" by simp
    have "((xs @ ys) @ [last (m # ys)]) ! (Suc (length xs) + t) = (ys @ [last ys]) ! Suc t"
      by (simp add: nth_append l)
    also have "\<dots> \<in> set ys"
      using t \<open>ys \<noteq> []\<close> by (cases "Suc t < length ys") (auto simp add: nth_append less_Suc_eq)
    finally show "\<not> sameRecord r (((xs @ ys) @ [last (m # ys)]) ! (Suc (length xs) + t))"
      using sp(2) by blast
  qed
  finally show ?thesis .
qed

lemma filter_increasing:
  assumes inc: "increasing (xs @ m # ys)" and same: "sameRecord r m"
  shows "filter (\<lambda>x. \<not> sameRecord r x) (xs @ m # ys) = xs @ ys"
  using increasing_split(1,2) [OF inc same] same by simp

lemma removeRecord_increasing:
  assumes inc: "increasing (records p)" and tracked: "\<exists>m\<in>set (records p). sameRecord r m"
  shows "removeRecord r (p, d) =
         Inr (p\<lparr>records := filter (\<lambda>x. \<not> sameRecord r x) (records p)\<rparr>,
              DeleteCommitRecord (number r) (hash r) d)"
proof -
  from tracked obtain m where "m \<in> set (records p)" and same: "sameRecord r m"
    by blast
  then obtain xs ys where split: "records p = xs @ m # ys"
    by (meson split_list)
  from inc split have inc': "increasing (xs @ m # ys)"
    by simp
  have loop: "removeLoop r (length (records p)) 0 (records p, length (records p), False) =
              Inr ((xs @ ys) @ [last (m # ys)], length (xs @ ys), True)"
    unfolding split by (rule removeLoop_increasing [OF inc' same])
  have ok: "checkRecords (xs @ ys)"
    using increasing_split(3) [OF inc' same] by (simp add: checkRecords_increasing)
  show ?thesis
    using loop ok filter_increasing [OF inc' same]
    by (simp add: removeRecord_def split)
qed

text \<open>
  Claim C8. In a pruning run that is not interrupted, over tracked records with increasing
  numbers: a record that the oracle reports as not canonical, and a record that cannot be
  read back, is removed from the tracked records and its persisted record is deleted, and
  the run goes on with the next record. The deletion touches the record's own key only:
  every trie node of the store is as it was.
\<close>

theorem pruning_skips_record:
  assumes inc: "increasing (records p)" and tracked: "\<exists>m\<in>set (records p). sameRecord r m"
    and live: "\<not> (case interrupt of [] \<Rightarrow> False | b # _ \<Rightarrow> b)"
  shows "(\<not> IsCanonical (config p) (number r) (hash r) \<or>
          (\<exists>err. readCommitRecord E d (number r) (hash r) = Inl err) \<longrightarrow>
            pruning E (r # rs) interrupt (p, d) =
            pruning E rs (tl interrupt)
              (p\<lparr>records := filter (\<lambda>x. \<not> sameRecord r x) (records p)\<rparr>,
               DeleteCommitRecord (number r) (hash r) d)) \<and>
         (\<forall>k. store (DeleteCommitRecord (number r) (hash r) d) (TrieNodeKey k) =
               store d (TrieNodeKey k))"
proof (intro conjI impI allI)
  assume skip: "\<not> IsCanonical (config p) (number r) (hash r) \<or>
          (\<exists>err. readCommitRecord E d (number r) (hash r) = Inl err)"
  note rm = removeRecord_increasing [OF inc tracked, of d]
  show "pruning E (r # rs) interrupt (p, d) =
            pruning E rs (tl interrupt)
              (p\<lparr>records := filter (\<lambda>x. \<not> sameRecord r x) (records p)\<rparr>,
               DeleteCommitRecord (number r) (hash r) d)"
  proof (cases "IsCanonical (config p) (number r) (hash r)")
    case False
    with live rm show ?thesis
      by simp
  next
    case True
    with skip obtain err where "readCommitRecord E d (number r) (hash r) = Inl err"
      by blast
    with True live rm show ?thesis
      by simp
  qed
next
  fix k
  show "store (DeleteCommitRecord (number r) (hash r) d) (TrieNodeKey k) = store d (TrieNodeKey k)"
    by (simp add: DeleteCommitRecord_def)
qed

theorem pruning_skips_record_witness:
  "increasing (records sidePruner) \<and>
   \<not> IsCanonical (config sidePruner) 10 11 \<and>
   pruning exampleEnv [newCommitRecord 10 11] [] (sidePruner, emptyDisk) =
     Inr (sidePruner\<lparr>records := [newCommitRecord 20 20]\<rparr>, DeleteCommitRecord 10 11 emptyDisk) \<and>
   IsCanonical (config sidePruner) 20 20 \<and>
   readCommitRecord brokenEnv emptyDisk 20 20 = Inl IOError \<and>
   pruning brokenEnv [newCommitRecord 20 20] [] (sidePruner, emptyDisk) =
     Inr (sidePruner\<lparr>records := [newCommitRecord 10 11]\<rparr>, DeleteCommitRecord 20 20 emptyDisk)"
proof -
  have inc: "increasing (records sidePruner)"
    by (simp add: increasing_def sidePruner_def newCommitRecord_def)
  have t1: "\<exists>m\<in>set (records sidePruner). sameRecord (newCommitRecord 10 11) m"
    and t2: "\<exists>m\<in>set (records sidePruner). sameRecord (newCommitRecord 20 20) m"
    by (simp_all add: sidePruner_def sameRecord_def)
  have live: "\<not> (case [] :: bool list of [] \<Rightarrow> False | b # _ \<Rightarrow> b)"
    by simp
  have side: "\<not> IsCanonical (config sidePruner) 10 11"
    and main: "IsCanonical (config sidePruner) 20 20"
    by (simp_all add: sidePruner_def newPruner_def exampleConfig_def)
  have broken: "readCommitRecord brokenEnv emptyDisk 20 20 = Inl IOError"
    by (simp add: brokenEnv_def)
  have f1: "filter (\<lambda>x. \<not> sameRecord (newCommitRecord 10 11) x) (records sidePruner) =
            [newCommitRecord 20 20]"
    and f2: "filter (\<lambda>x. \<not> sameRecord (newCommitRecord 20 20) x) (records sidePruner) =
            [newCommitRecord 10 11]"
    by (simp_all add: sidePruner_def sameRecord_def newCommitRecord_def)
  have n1: "number (newCommitRecord 10 11) = 10" "hash (newCommitRecord 10 11) = 11"
    and n2: "number (newCommitRecord 20 20) = 20" "hash (newCommitRecord 20 20) = 20"
    by (simp_all add: newCommitRecord_def)
  from pruning_skips_record [OF inc t1 live, of exampleEnv emptyDisk "[]"] side
  have "pruning exampleEnv [newCommitRecord 10 11] [] (sidePruner, emptyDisk) =
        pruning exampleEnv [] (tl [])
          (sidePruner\<lparr>records := filter (\<lambda>x. \<not> sameRecord (newCommitRecord 10 11) x) (records sidePruner)\<rparr>,
           DeleteCommitRecord 10 11 emptyDisk)"
    unfolding n1 by blast
  then have first: "pruning exampleEnv [newCommitRecord 10 11] [] (sidePruner, emptyDisk) =
     Inr (sidePruner\<lparr>records := [newCommitRecord 20 20]\<rparr>, DeleteCommitRecord 10 11 emptyDisk)"
    by (simp only: f1 pruning.simps)
  from pruning_skips_record [OF inc t2 live, of brokenEnv emptyDisk "[]"] broken
  have "pruning brokenEnv [newCommitRecord 20 20] [] (sidePruner, emptyDisk) =
        pruning brokenEnv [] (tl [])
          (sidePruner\<lparr>records := filter (\<lambda>x. \<not> sameRecord (newCommitRecord 20 20) x) (records sidePruner)\<rparr>,
           DeleteCommitRecord 20 20 emptyDisk)"
    unfolding n2 by blast
  then have second: "pruning brokenEnv [newCommitRecord 20 20] [] (sidePruner, emptyDisk) =
     Inr (sidePruner\<lparr>records := [newCommitRecord 10 11]\<rparr>, DeleteCommitRecord 20 20 emptyDisk)"
    by (simp only: f2 pruning.simps)
  from inc side main broken first second show ?thesis
    by blast
qed

section \<open>Dereference\<close>

lemma getNode_removeChild: "getNode (removeChild k c db) k = None"
  by (simp add: removeChild_def Let_def getNode_simps)

lemma parents_le_one: "(x :: 32 word) \<le> 1 \<Longrightarrow> x = 0 \<or> x = 1"
proof -
  assume "x \<le> 1"
  then have "unat x = unat (0 :: 32 word) \<or> unat x = unat (1 :: 32 word)"
    by (auto simp add: word_le_nat_alt)
  then show ?thesis
    by (simp only: word_unat_eq_iff [symmetric])
qed

text \<open>
  One step of the recursion of \<^verbatim>\<open>Dereference\<close>, after the edge from the parent
  has been counted down. A child that is not in the dirty map ends the step. A child that
  is resident has its parent count decremented (a count that is already zero stays
  zero). If the count is still positive, that is all: the step returns the database with
  only that count changed, the child is in the dirty map and on the flush-list as before
  and none of its children is visited. If the count is zero, the child is taken out of
  the flush-list, \<^verbatim>\<open>dereference\<close> is called on each of its hash children in turn, and
  the child is removed from the dirty map: it is not resident in the database that the
  step returns.
\<close>

lemma dereference_by_parent_count:
  assumes parent: "getNode db (encodeKey E parentOwner parentPath parentHash) = Some parent"
    and db1: "db1 = dropEdge (encodeKey E parentOwner parentPath parentHash)
                      (encodeKey E childOwner childPath childHash) parent db"
  shows
    "(getNode db1 (encodeKey E childOwner childPath childHash) = None \<longrightarrow>
        dereference (Suc fuel) E childOwner childHash childPath parentOwner parentHash parentPath db
          = Inr db1) \<and>
     (\<forall>c. getNode db1 (encodeKey E childOwner childPath childHash) = Some c \<and> 1 < parents c \<longrightarrow>
        dereference (Suc fuel) E childOwner childHash childPath parentOwner parentHash parentPath db
          = Inr (setNode (encodeKey E childOwner childPath childHash)
                   (c\<lparr>parents := parents c - 1\<rparr>) db1)) \<and>
     (\<forall>c. getNode db1 (encodeKey E childOwner childPath childHash) = Some c \<and> parents c \<le> 1 \<longrightarrow>
        dereference (Suc fuel) E childOwner childHash childPath parentOwner parentHash parentPath db
          = (case unlinkFlush (encodeKey E childOwner childPath childHash) (c\<lparr>parents := 0\<rparr>)
                    (setNode (encodeKey E childOwner childPath childHash) (c\<lparr>parents := 0\<rparr>) db1) of
               Inl f \<Rightarrow> Inl f
             | Inr db3 \<Rightarrow>
                 (case iterateRefs (node c) childPath
                         (\<lambda>innerPath innerHash s.
                            case dereference fuel E childOwner innerHash innerPath
                                   childOwner childHash childPath s of
                              Inl f \<Rightarrow> Inl f
                            | Inr s' \<Rightarrow> Inr (None, s'))
                         db3 of
                    Inl f \<Rightarrow> Inl f
                  | Inr (_, db4) \<Rightarrow>
                      Inr (removeChild (encodeKey E childOwner childPath childHash) c db4))) \<and>
        (\<forall>db'. dereference (Suc fuel) E childOwner childHash childPath parentOwner parentHash
                 parentPath db = Inr db' \<longrightarrow>
               getNode db' (encodeKey E childOwner childPath childHash) = None))"
proof (intro conjI allI impI)
  let ?ck = "encodeKey E childOwner childPath childHash"
  let ?run = "dereference (Suc fuel) E childOwner childHash childPath parentOwner parentHash
                parentPath db"
  {
    assume "getNode db1 ?ck = None"
    with parent db1 show "?run = Inr db1"
      by (simp add: Let_def)
  }
  {
    fix c
    assume c: "getNode db1 ?ck = Some c \<and> 1 < parents c"
    then have "0 < parents c" and "parents c - 1 \<noteq> 0"
      by (auto simp add: word_less_nat_alt unat_eq_zero [symmetric] unat_sub word_le_nat_alt
          simp del: unat_eq_zero)
    with c parent db1 show "?run = Inr (setNode ?ck (c\<lparr>parents := parents c - 1\<rparr>) db1)"
      by (simp add: Let_def)
  }
  {
    fix c
    assume c: "getNode db1 ?ck = Some c \<and> parents c \<le> 1"
    then have "parents c = 0 \<or> parents c = 1"
      by (simp add: parents_le_one)
    then have zero: "(if 0 < parents c then c\<lparr>parents := parents c - 1\<rparr> else c) = c\<lparr>parents := 0\<rparr>"
      by auto
    from c parent db1 show eq: "?run =
          (case unlinkFlush ?ck (c\<lparr>parents := 0\<rparr>) (setNode ?ck (c\<lparr>parents := 0\<rparr>) db1) of
               Inl f \<Rightarrow> Inl f
             | Inr db3 \<Rightarrow>
                 (case iterateRefs (node c) childPath
                         (\<lambda>innerPath innerHash s.
                            case dereference fuel E childOwner innerHash innerPath
                                   childOwner childHash childPath s of
                              Inl f \<Rightarrow> Inl f
                            | Inr s' \<Rightarrow> Inr (None, s'))
                         db3 of
                    Inl f \<Rightarrow> Inl f
                  | Inr (_, db4) \<Rightarrow> Inr (removeChild ?ck c db4)))"
      by (simp add: Let_def zero removeChild_def split: sum.splits prod.splits)
    fix db'
    assume "?run = Inr db'"
    with eq show "getNode db' ?ck = None"
      by (auto simp add: getNode_removeChild split: sum.splits prod.splits)
  }
qed

lemma dereference_by_parent_count_example:
  "dereference (Suc 0) exampleEnv 0 9 [] 0 0 [] sharedState = Inr sharedState \<and>
   getNode sharedState (EncodeNodeKey 0 [7] 4) = Some sharedLeaf \<and> 1 < parents sharedLeaf \<and>
   dereference (Suc 0) exampleEnv 0 4 [7] 0 3 [] sharedState =
     Inr (setNode (EncodeNodeKey 0 [7] 4) (sharedLeaf\<lparr>parents := 1\<rparr>) sharedState) \<and>
   getNode sharedState (EncodeNodeKey 0 [] 3) = Some sharedExtension \<and>
   parents sharedExtension \<le> 1 \<and>
   (\<exists>db'. Dereference (Suc (Suc (Suc 0))) exampleEnv 3 sharedState = Inr db' \<and>
      getNode db' (EncodeNodeKey 0 [] 3) = None \<and>
      getNode db' (EncodeNodeKey 0 [7] 4) =
        Some (sharedLeaf\<lparr>parents := 1, flushNext := EncodeNodeKey 0 [] 6\<rparr>))"
proof -
  have keys: "encodeKey exampleEnv 0 [] 0 = []" "encodeKey exampleEnv 0 [] 9 = EncodeNodeKey 0 [] 9"
    "encodeKey exampleEnv 0 [7] 4 = EncodeNodeKey 0 [7] 4"
    "encodeKey exampleEnv 0 [] 3 = EncodeNodeKey 0 [] 3"
    by (simp_all add: example_defs)
  have root: "getNode sharedState (encodeKey exampleEnv 0 [] 0) = Some sharedRoot"
    and ext: "getNode sharedState (encodeKey exampleEnv 0 [] 3) = Some sharedExtension"
    and lf: "getNode sharedState (EncodeNodeKey 0 [7] 4) = Some sharedLeaf"
    by (simp_all add: sharedState_def example_defs)
  \<comment> \<open>a child that is not resident\<close>
  have e1: "sharedState = dropEdge (encodeKey exampleEnv 0 [] 0) (encodeKey exampleEnv 0 [] 9)
                            sharedRoot sharedState"
    by (simp add: dropEdge_def sharedRoot_def example_defs)
  have a1: "getNode sharedState (encodeKey exampleEnv 0 [] 9) = None"
    by (simp add: sharedState_def example_defs)
  from dereference_by_parent_count [OF root e1, of 0] a1
  have c1: "dereference (Suc 0) exampleEnv 0 9 [] 0 0 [] sharedState = Inr sharedState"
    by blast
  \<comment> \<open>a child with two parents\<close>
  have e2: "sharedState = dropEdge (encodeKey exampleEnv 0 [] 3) (encodeKey exampleEnv 0 [7] 4)
                            sharedExtension sharedState"
    by (simp add: dropEdge_def sharedExtension_def)
  have two: "1 < parents sharedLeaf" "parents sharedLeaf - 1 = 1"
    by (simp_all add: sharedLeaf_def)
  from dereference_by_parent_count [OF ext e2, of 0] lf two(1)
  have "dereference (Suc 0) exampleEnv 0 4 [7] 0 3 [] sharedState =
        Inr (setNode (encodeKey exampleEnv 0 [7] 4) (sharedLeaf\<lparr>parents := parents sharedLeaf - 1\<rparr>)
               sharedState)"
    unfolding keys by blast
  then have c2: "dereference (Suc 0) exampleEnv 0 4 [7] 0 3 [] sharedState =
        Inr (setNode (EncodeNodeKey 0 [7] 4) (sharedLeaf\<lparr>parents := 1\<rparr>) sharedState)"
    by (simp only: keys two)
  \<comment> \<open>a root with one parent, whose hash child is shared\<close>
  let ?db1 = "dropEdge (encodeKey exampleEnv 0 [] 0) (encodeKey exampleEnv 0 [] 3)
                sharedRoot sharedState"
  have a3: "getNode ?db1 (encodeKey exampleEnv 0 [] 3) = Some sharedExtension"
    unfolding shared_defs by (simp add: dropEdge_def example_defs)
  have one: "parents sharedExtension \<le> 1"
    by (simp add: sharedExtension_def)
  obtain db' where run: "Dereference (Suc (Suc (Suc 0))) exampleEnv 3 sharedState = Inr db'"
    and kept: "getNode db' (EncodeNodeKey 0 [7] 4) =
                 Some (sharedLeaf\<lparr>parents := 1, flushNext := EncodeNodeKey 0 [] 6\<rparr>)"
    unfolding shared_defs
    by (simp add: example_defs Dereference_def dropEdge_def unlinkFlush_def removeChild_def
        BytesToHash_Bytes)
  from run have "dereference (Suc (Suc (Suc 0))) exampleEnv 0 3 [] 0 0 [] sharedState = Inr db'"
    by (simp add: Dereference_def)
  with dereference_by_parent_count [OF root refl, of 0 "[]" 3 "Suc (Suc 0)"] a3 one
  have gone: "getNode db' (EncodeNodeKey 0 [] 3) = None"
    unfolding keys by blast
  from ext have ext': "getNode sharedState (EncodeNodeKey 0 [] 3) = Some sharedExtension"
    by (simp only: keys)
  from c1 lf two(1) c2 ext' one run gone kept show ?thesis
    by blast
qed

lemma orphan_dereference:
  "Dereference (Suc (Suc 0)) exampleEnv 1 accountState = Inr orphanState"
  unfolding accountState_def orphanState_def
  by (simp add: example_defs Dereference_def dropEdge_def unlinkFlush_def removeChild_def)

text \<open>
  Claim C3 does not hold of the code. The nodes that a node holds by its children map (a
  storage root, held by the node of its account) are its children as its embedded hash
  children are, and \<^verbatim>\<open>commit\<close> walks both; \<^verbatim>\<open>dereference\<close>, under its comment
  \<^verbatim>\<open>Dereference all children and delete the node\<close>, walks the hash children only. A state
  root with one account and the storage root of that account, referenced by a block:
  after \<^verbatim>\<open>Dereference\<close> of the state root its node has left the dirty map, and the storage
  root, of which it was the one parent, has not been dereferenced: its parent count is
  still 1, and it is still on the flush-list, which it now makes up alone.
\<close>

theorem Dereference_skips_children_map:
  "accountRun = Inr accountState \<and>
   map_option children (getNode accountState (EncodeNodeKey 0 [] 1))
     = Some (Some [(EncodeNodeKey 5 [] 2, 1)]) \<and>
   map_option parents (getNode accountState (EncodeNodeKey 5 [] 2)) = Some 1 \<and>
   Dereference (Suc (Suc 0)) exampleEnv 1 accountState = Inr orphanState \<and>
   getNode orphanState (EncodeNodeKey 0 [] 1) = None \<and>
   map_option parents (getNode orphanState (EncodeNodeKey 5 [] 2)) = Some 1 \<and>
   oldest orphanState = EncodeNodeKey 5 [] 2 \<and>
   newest orphanState = EncodeNodeKey 5 [] 2"
proof -
  have "map_option children (getNode accountState (EncodeNodeKey 0 [] 1))
          = Some (Some [(EncodeNodeKey 5 [] 2, 1)])"
    "map_option parents (getNode accountState (EncodeNodeKey 5 [] 2)) = Some 1"
    by (simp_all add: accountState_def example_defs)
  moreover have "getNode orphanState (EncodeNodeKey 0 [] 1) = None"
    "map_option parents (getNode orphanState (EncodeNodeKey 5 [] 2)) = Some 1"
    "oldest orphanState = EncodeNodeKey 5 [] 2" "newest orphanState = EncodeNodeKey 5 [] 2"
    by (simp_all add: orphanState_def example_defs)
  ultimately show ?thesis
    using accountRun_state orphan_dereference by blast
qed

section \<open>Cap\<close>

lemma orphan_cap: "Cap exampleEnv 0 orphanState = Inr (None, cappedState)"
  unfolding orphanState_def cappedState_def
  by (simp add: example_defs Cap_def lenChildren_def NewBatch_def capFlush_def capShrink_def
      rlp_def writeNode_def addKey_def WriteTrieNode_def batchPut_def ValueSize_def writeBatch_def
      Write_def Reset_def Decode_Encode)

lemma orphan_size: "Size exampleEnv cappedState = Inr (34, 0)"
  unfolding cappedState_def
  by (simp add: example_defs Size_def lenChildren_def)

text \<open>
  Claim C2 does not hold of the code. A state root with one account is inserted with the
  storage root of the account, referenced and dereferenced again: \<^verbatim>\<open>dereference\<close> takes
  the 48 bytes of the children map of the removed node from \<^verbatim>\<open>childrenSize\<close> but not the
  34 bytes of its entry. \<^verbatim>\<open>Cap(0)\<close> then flushes every node of the flush-list and returns
  no error; the tracked memory is 34, above the limit 0, and the meta-root is the only
  node left.
\<close>

theorem Cap_above_limit:
  "accountRun = Inr accountState \<and>
   Dereference (Suc (Suc 0)) exampleEnv 1 accountState = Inr orphanState \<and>
   Cap exampleEnv 0 orphanState = Inr (None, cappedState) \<and>
   Size exampleEnv cappedState = Inr (34, 0) \<and>
   map fst (dirties cappedState) = [metaRoot]"
proof -
  have "map fst (dirties cappedState) = [metaRoot]"
    by (simp add: cappedState_def metaRoot_def)
  with accountRun_state orphan_dereference orphan_cap orphan_size show ?thesis
    by blast
qed

section \<open>Errors of Cap and Commit\<close>









lemma noTrieDelete_append:
  "noTrieDelete (xs @ ys) = (noTrieDelete xs \<and> noTrieDelete ys)"
  by (induction xs rule: noTrieDelete.induct) auto
















lemma noTrieDelete_WritePreimages:
  "noTrieDelete (ops b) \<Longrightarrow> noTrieDelete (ops (WritePreimages ps b))"
  unfolding WritePreimages_def
  by (induction ps arbitrary: b) (auto simp add: batchPut_def noTrieDelete_append)









end
